theory Spec2Isabelle
  imports Main "HOL-Library.Word"
begin

unbundle bit_operations_syntax

section \<open>Platform values: strings and header lists\<close>

text \<open>
  The chain works on the Fetch API's \<^verbatim>\<open>Request\<close>, \<^verbatim>\<open>Response\<close> and \<^verbatim>\<open>Headers\<close>
  objects. These belong to the runtime, not to the repository; the model keeps what the
  repository's code reads from them. A \<^verbatim>\<open>Headers\<close> object is a list of name/value
  pairs whose names are stored in lower case; \<^verbatim>\<open>get\<close> joins all values of a name
  with a comma and a space, \<^verbatim>\<open>set\<close> overwrites the first entry of the name and drops
  the others, \<^verbatim>\<open>append\<close> adds an entry at the end.
\<close>

definition lower_char :: "char \<Rightarrow> char" where
  "lower_char c =
     (case map_of (zip ''ABCDEFGHIJKLMNOPQRSTUVWXYZ'' ''abcdefghijklmnopqrstuvwxyz'') c of
        None \<Rightarrow> c
      | Some l \<Rightarrow> l)"

definition lower :: "string \<Rightarrow> string" where
  "lower s = map lower_char s"

type_synonym headers = "(string \<times> string) list"

fun join_values :: "string list \<Rightarrow> string" where
  "join_values [] = []"
| "join_values [v] = v"
| "join_values (v # w # vs) = v @ '', '' @ join_values (w # vs)"

definition headers_get :: "headers \<Rightarrow> string \<Rightarrow> string option" where
  "headers_get hs name =
     (case map snd (filter (\<lambda>kv. fst kv = lower name) hs) of
        [] \<Rightarrow> None
      | v # vs \<Rightarrow> Some (join_values (v # vs)))"

definition headers_has :: "headers \<Rightarrow> string \<Rightarrow> bool" where
  "headers_has hs name = list_ex (\<lambda>kv. fst kv = lower name) hs"

fun set_first :: "string \<Rightarrow> string \<Rightarrow> headers \<Rightarrow> headers" where
  "set_first k v [] = [(k, v)]"
| "set_first k v (kv # hs) =
     (if fst kv = k then (k, v) # filter (\<lambda>kv'. fst kv' \<noteq> k) hs else kv # set_first k v hs)"

definition headers_set :: "headers \<Rightarrow> string \<Rightarrow> string \<Rightarrow> headers" where
  "headers_set hs name v = set_first (lower name) v hs"

definition headers_append :: "headers \<Rightarrow> string \<Rightarrow> string \<Rightarrow> headers" where
  "headers_append hs name v = hs @ [(lower name, v)]"

definition headers_delete :: "headers \<Rightarrow> string \<Rightarrow> headers" where
  "headers_delete hs name = filter (\<lambda>kv. fst kv \<noteq> lower name) hs"

section \<open>Responses and the response builder (createResponseBuilder)\<close>

text \<open>
  What a builder's body can be set to is a platform \<^verbatim>\<open>BodyInit\<close> value: a string,
  bytes (a buffer or a typed array), a \<^verbatim>\<open>Blob\<close> with its type and bytes, a
  \<^verbatim>\<open>URLSearchParams\<close> (kept as its serialisation), a \<^verbatim>\<open>FormData\<close> (its entries),
  or a \<^verbatim>\<open>ReadableStream\<close> (which stream it is). What a response holds is the body
  extracted from such a value: bytes that have not been read yet, the multipart encoding
  of form entries under a boundary, not read yet either, or the stream itself, which the
  response then shares with whoever else holds it. A body that has been read, whatever
  it was made from, is a stream that is in use.
\<close>

datatype body_init =
    BodyString string
  | BodyBytes string
  | BodyBlob string string
  | BodyParams string
  | BodyForm "(string \<times> string) list"
  | BodyStream nat

datatype body = Bytes string | Multipart string "(string \<times> string) list" | Stream nat

record response =
  status :: nat
  headers :: headers
  body :: "body option"

text \<open>
  What can be thrown: the chain's own \<^verbatim>\<open>ShortCircuitError\<close>, which carries the
  response, or any other error, of which the model keeps the name or the message.
\<close>

datatype exn = ShortCircuitError response | Error string

subsection \<open>The runtime\<close>

text \<open>
  What the runtime supplies besides the request:
  \<^item> the clock, and the random source of \<^verbatim>\<open>generateUUID\<close>: \<^verbatim>\<open>native_uuid\<close> is the
    string \<^verbatim>\<open>crypto.randomUUID()\<close> returns where the runtime has it, \<^verbatim>\<open>random_bytes\<close>
    are the sixteen bytes the fallback draws;
  \<^item> \<^verbatim>\<open>boundary\<close>, the multipart boundary it makes up for the next \<^verbatim>\<open>FormData\<close> body
    it encodes, a new one each time;
  \<^item> the state of the streams: \<^verbatim>\<open>used\<close> says which are disturbed or locked, and
    \<^verbatim>\<open>stream_text\<close> what reading an unused one to its end gives, the text or the
    error the stream fails with;
  \<^item> \<^verbatim>\<open>parses_json\<close>, the texts that \<^verbatim>\<open>JSON.parse\<close> accepts.
\<close>

record env =
  now :: nat
  native_uuid :: "string option"
  random_bytes :: "nat \<Rightarrow> 8 word"
  boundary :: string
  used :: "nat \<Rightarrow> bool"
  stream_text :: "nat \<Rightarrow> exn + string"
  parses_json :: "string \<Rightarrow> bool"

subsection \<open>The Response constructor\<close>

text \<open>
  \<^verbatim>\<open>new Response(body, { status, headers })\<close> as the Fetch standard gives it. The body
  is extracted first, which gives the content type its kind implies, and which throws a
  \<^verbatim>\<open>TypeError\<close> for a stream that is disturbed or locked. Then the status is checked
  (\<^verbatim>\<open>RangeError\<close> outside 200 to 599), the headers are copied, and, if there is a body,
  a null-body status (101, 103, 204, 205, 304) is refused with a \<^verbatim>\<open>TypeError\<close> and
  the implied content type is appended if the headers have no \<^verbatim>\<open>Content-Type\<close>.
  The headers are copied whole, as the server runtimes do that the adapters are written
  for (a browser would leave out \<^verbatim>\<open>Set-Cookie\<close>).
\<close>

definition extract_body :: "env \<Rightarrow> body_init \<Rightarrow> exn + body \<times> string option" where
  "extract_body e d =
     (case d of
        BodyString t \<Rightarrow> Inr (Bytes t, Some ''text/plain;charset=UTF-8'')
      | BodyBytes t \<Rightarrow> Inr (Bytes t, None)
      | BodyBlob ty t \<Rightarrow> Inr (Bytes t, if ty = [] then None else Some ty)
      | BodyParams t \<Rightarrow> Inr (Bytes t, Some ''application/x-www-form-urlencoded;charset=UTF-8'')
      | BodyForm entries \<Rightarrow>
          Inr (Multipart (boundary e) entries, Some (''multipart/form-data; boundary='' @ boundary e))
      | BodyStream i \<Rightarrow> if used e i then Inl (Error ''TypeError'') else Inr (Stream i, None))"

definition null_body_status :: "nat \<Rightarrow> bool" where
  "null_body_status n = (n \<in> set [101, 103, 204, 205, 304])"

definition with_type :: "headers \<Rightarrow> string option \<Rightarrow> headers" where
  "with_type hs ty =
     (case ty of
        None \<Rightarrow> hs
      | Some t \<Rightarrow> if headers_has hs ''Content-Type'' then hs else headers_append hs ''Content-Type'' t)"

definition initialize :: "nat \<Rightarrow> headers \<Rightarrow> (body \<times> string option) option \<Rightarrow> exn + response" where
  "initialize code hs bodyWithType =
     (if code < 200 \<or> 599 < code then Inl (Error ''RangeError'')
      else case bodyWithType of
             None \<Rightarrow> Inr \<lparr>status = code, headers = hs, body = None\<rparr>
           | Some (bd, ty) \<Rightarrow>
               if null_body_status code then Inl (Error ''TypeError'')
               else Inr \<lparr>status = code, headers = with_type hs ty, body = Some bd\<rparr>)"

definition new_Response :: "env \<Rightarrow> body_init option \<Rightarrow> nat \<Rightarrow> headers \<Rightarrow> exn + response" where
  "new_Response e v code hs =
     (case v of
        None \<Rightarrow> initialize code hs None
      | Some d \<Rightarrow>
          (case extract_body e d of
             Inl err \<Rightarrow> Inl err
           | Inr bodyWithType \<Rightarrow> initialize code hs (Some bodyWithType)))"

subsection \<open>The builder\<close>

text \<open>
  The builder closes over three variables, \<^verbatim>\<open>_status\<close>, \<^verbatim>\<open>_headers\<close> and
  \<^verbatim>\<open>_body\<close>. Every method is a state transformer on them; the fluent methods return
  the builder itself, which is the new state here. The status and the body can also be
  assigned through the setters of \<^verbatim>\<open>status\<close> and \<^verbatim>\<open>body\<close>.
\<close>

record builder =
  b_status :: nat
  b_headers :: headers
  b_body :: "body_init option"

definition createResponseBuilder :: builder where
  "createResponseBuilder = \<lparr>b_status = 200, b_headers = [], b_body = None\<rparr>"

definition setStatus :: "nat \<Rightarrow> builder \<Rightarrow> builder" where
  "setStatus code b = b\<lparr>b_status := code\<rparr>"


definition setHeader :: "string \<Rightarrow> string \<Rightarrow> builder \<Rightarrow> builder" where
  "setHeader name v b = b\<lparr>b_headers := headers_set (b_headers b) name v\<rparr>"

definition appendHeader :: "string \<Rightarrow> string \<Rightarrow> builder \<Rightarrow> builder" where
  "appendHeader name v b = b\<lparr>b_headers := headers_append (b_headers b) name v\<rparr>"

definition deleteHeader :: "string \<Rightarrow> builder \<Rightarrow> builder" where
  "deleteHeader name b = b\<lparr>b_headers := headers_delete (b_headers b) name\<rparr>"

text \<open>\<^verbatim>\<open>json\<close> takes the already serialised text of its argument.\<close>

definition json :: "string \<Rightarrow> builder \<Rightarrow> builder" where
  "json data b =
     b\<lparr>b_headers := headers_set (b_headers b) ''Content-Type'' ''application/json; charset=utf-8'',
       b_body := Some (BodyString data)\<rparr>"


definition html :: "string \<Rightarrow> builder \<Rightarrow> builder" where
  "html content b =
     b\<lparr>b_headers := headers_set (b_headers b) ''Content-Type'' ''text/html; charset=utf-8'',
       b_body := Some (BodyString content)\<rparr>"

text \<open>\<^verbatim>\<open>redirect(url, redirectStatus = 302)\<close>: the status is optional.\<close>

definition redirect :: "string \<Rightarrow> nat option \<Rightarrow> builder \<Rightarrow> builder" where
  "redirect url redirectStatus b =
     b\<lparr>b_status := (case redirectStatus of None \<Rightarrow> 302 | Some code \<Rightarrow> code),
       b_headers := headers_set (b_headers b) ''Location'' url,
       b_body := None\<rparr>"

text \<open>
  \<^verbatim>\<open>build()\<close> as an operation on the builder, in a runtime \<open>e\<close>: it returns what
  the constructor gives, a response or the error it throws, together with the builder
  state it leaves behind.
\<close>

definition build :: "env \<Rightarrow> builder \<Rightarrow> (exn + response) \<times> builder" where
  "build e b = (new_Response e (b_body b) (b_status b) (b_headers b), b)"



section \<open>Requests and request metadata (context.ts)\<close>

record request =
  req_method :: string
  url :: string
  req_headers :: headers
  req_body :: "string option"

subsection \<open>utils/uuid.ts\<close>

definition hex_digit :: "nat \<Rightarrow> char" where
  "hex_digit n = ''0123456789abcdef'' ! (n mod 16)"

definition hex2 :: "8 word \<Rightarrow> string" where
  "hex2 b = [hex_digit (unat b div 16), hex_digit (unat b mod 16)]"

fun join_with :: "string \<Rightarrow> string list \<Rightarrow> string" where
  "join_with sep [] = []"
| "join_with sep [x] = x"
| "join_with sep (x # y # ys) = x @ sep @ join_with sep (y # ys)"

definition formatUUIDBytes :: "(nat \<Rightarrow> 8 word) \<Rightarrow> string" where
  "formatUUIDBytes bytes =
     (let hex = map (\<lambda>i. hex2 (bytes i)) [0..<16]
      in join_with ''-''
           [concat (take 4 hex),
            concat (take 2 (drop 4 hex)),
            concat (take 2 (drop 6 hex)),
            concat (take 2 (drop 8 hex)),
            concat (take 6 (drop 10 hex))])"

definition generateUUIDFallback :: "(nat \<Rightarrow> 8 word) \<Rightarrow> string" where
  "generateUUIDFallback rnd =
     (let bytes = rnd;
          bytes = bytes(6 := (bytes 6 AND 0x0f) OR 0x40);
          bytes = bytes(8 := (bytes 8 AND 0x3f) OR 0x80)
      in formatUUIDBytes bytes)"

definition generateUUID :: "env \<Rightarrow> string" where
  "generateUUID e =
     (case native_uuid e of
        Some u \<Rightarrow> u
      | None \<Rightarrow> generateUUIDFallback (random_bytes e))"

subsection \<open>String helpers of the runtime\<close>

definition upper_char :: "char \<Rightarrow> char" where
  "upper_char c =
     (case map_of (zip ''abcdefghijklmnopqrstuvwxyz'' ''ABCDEFGHIJKLMNOPQRSTUVWXYZ'') c of
        None \<Rightarrow> c
      | Some u \<Rightarrow> u)"

definition toUpperCase :: "string \<Rightarrow> string" where
  "toUpperCase s = map upper_char s"

text \<open>
  \<^verbatim>\<open>String.prototype.trim\<close> on a header value: the white space a byte string can
  hold (space, tab, line feed, vertical tab, form feed, carriage return, no-break space).
\<close>

definition is_space :: "char \<Rightarrow> bool" where
  "is_space c = (c \<in> set [CHR '' '', CHR 0x09, CHR 0x0A, CHR 0x0B, CHR 0x0C, CHR 0x0D, CHR 0xA0])"

definition trim :: "string \<Rightarrow> string" where
  "trim s = rev (dropWhile is_space (rev (dropWhile is_space s)))"

text \<open>
  \<^verbatim>\<open>s.split(c)\<close> for a one-character separator: the pieces between the separators,
  one piece (the empty one) for the empty string.
\<close>

fun split_acc :: "char \<Rightarrow> string \<Rightarrow> string \<Rightarrow> string list" where
  "split_acc c cur [] = [rev cur]"
| "split_acc c cur (x # xs) =
     (if x = c then rev cur # split_acc c [] xs else split_acc c (x # cur) xs)"

definition split_on :: "char \<Rightarrow> string \<Rightarrow> string list" where
  "split_on c s = split_acc c [] s"

definition is_digit :: "char \<Rightarrow> bool" where
  "is_digit c = (c \<in> set ''0123456789'')"

definition is_hex :: "char \<Rightarrow> bool" where
  "is_hex c = (c \<in> set ''0123456789abcdefABCDEF'')"

definition digit_value :: "char \<Rightarrow> nat" where
  "digit_value c =
     (case map_of (zip ''0123456789'' [0, 1, 2, 3, 4, 5, 6, 7, 8, 9]) c of
        None \<Rightarrow> 0
      | Some d \<Rightarrow> d)"

text \<open>\<^verbatim>\<open>parseInt(n, 10)\<close> on a string of decimal digits.\<close>

definition parseInt10 :: "string \<Rightarrow> nat" where
  "parseInt10 n = foldl (\<lambda>a c. 10 * a + digit_value c) 0 n"

subsection \<open>isValidIP\<close>

text \<open>
  The two regular expressions of \<^verbatim>\<open>isValidIP\<close>, written out. Neither a digit nor a
  hexadecimal digit is a separator, so a string matches
  \<^verbatim>\<open>/^(\d{1,3}\.){3}\d{1,3}$/\<close> exactly when splitting it at the dots gives four pieces
  of one to three digits, and it matches
  \<^verbatim>\<open>/^([0-9a-fA-F]{0,4}:){2,7}[0-9a-fA-F]{0,4}$/\<close> exactly when splitting it at the
  colons gives three to eight pieces of at most four hexadecimal digits.
\<close>

definition ipv4_pattern :: "string \<Rightarrow> bool" where
  "ipv4_pattern ip =
     (let ps = split_on CHR ''.'' ip
      in length ps = 4 \<and> list_all (\<lambda>p. 1 \<le> length p \<and> length p \<le> 3 \<and> list_all is_digit p) ps)"

definition ipv6_pattern :: "string \<Rightarrow> bool" where
  "ipv6_pattern ip =
     (let ps = split_on CHR '':'' ip
      in 3 \<le> length ps \<and> length ps \<le> 8 \<and> list_all (\<lambda>p. length p \<le> 4 \<and> list_all is_hex p) ps)"

definition isValidIP :: "string \<Rightarrow> bool" where
  "isValidIP ip =
     (if ipv4_pattern ip then list_all (\<lambda>n. parseInt10 n \<le> 255) (split_on CHR ''.'' ip)
      else if CHR '':'' \<in> set ip then ipv6_pattern ip \<or> ip = ''::1'' \<or> ip = ''::''
      else False)"

subsection \<open>extractClientIP, extractRequestId, createRequestMeta\<close>

definition ipHeaders :: "string list" where
  "ipHeaders = [''cf-connecting-ip'', ''x-real-ip'', ''x-forwarded-for'', ''x-client-ip'', ''true-client-ip'']"

text \<open>
  One round of the loop of \<^verbatim>\<open>extractClientIP\<close>: the address a header yields, if it
  yields one. An absent header and a header with the empty value are both skipped by
  \<^verbatim>\<open>if (value)\<close>.
\<close>

definition candidate :: "headers \<Rightarrow> string \<Rightarrow> string option" where
  "candidate hs header =
     (case headers_get hs header of
        None \<Rightarrow> None
      | Some v \<Rightarrow>
          if v = [] then None
          else (case split_on CHR '','' v of
                  [] \<Rightarrow> None
                | first # _ \<Rightarrow>
                    let ip = trim first in if ip \<noteq> [] \<and> isValidIP ip then Some ip else None))"

fun first_candidate :: "headers \<Rightarrow> string list \<Rightarrow> string option" where
  "first_candidate hs [] = None"
| "first_candidate hs (header # rest) =
     (case candidate hs header of
        Some ip \<Rightarrow> Some ip
      | None \<Rightarrow> first_candidate hs rest)"

definition extractClientIP :: "request \<Rightarrow> string option" where
  "extractClientIP req = first_candidate (req_headers req) ipHeaders"

text \<open>
  \<^verbatim>\<open>a || b\<close> on values that are a string, \<^verbatim>\<open>null\<close> or \<^verbatim>\<open>undefined\<close>: the
  left operand unless it is absent or the empty string.
\<close>

definition or_else :: "string option \<Rightarrow> string option \<Rightarrow> string option" where
  "or_else a b = (case a of Some v \<Rightarrow> (if v = [] then b else Some v) | None \<Rightarrow> b)"

definition extractRequestId :: "request \<Rightarrow> string option" where
  "extractRequestId req =
     (let hs = req_headers req
      in or_else (headers_get hs ''x-request-id'')
           (or_else (headers_get hs ''x-correlation-id'')
              (or_else (headers_get hs ''request-id'') None)))"

record requestMeta =
  meta_id :: string
  startTime :: nat
  meta_url :: string
  meta_method :: string
  meta_ip :: "string option"

definition createRequestMeta :: "request \<Rightarrow> env \<Rightarrow> requestMeta" where
  "createRequestMeta req e =
     \<lparr>meta_id = (case extractRequestId req of
                   Some v \<Rightarrow> if v = [] then generateUUID e else v
                 | None \<Rightarrow> generateUUID e),
      startTime = now e,
      meta_url = url req,
      meta_method = toUpperCase (req_method req),
      meta_ip = extractClientIP req\<rparr>"

section \<open>The middleware chain (chain.ts)\<close>

subsection \<open>Context and results\<close>

record ctx =
  request :: request
  response :: builder
  state :: "(string \<times> string) list"
  meta :: requestMeta

text \<open>
  \<^verbatim>\<open>createContext\<close> parses \<^verbatim>\<open>request.url\<close> first. The URL of a platform
  \<^verbatim>\<open>Request\<close> is absolute, so the parse does not throw, and the model keeps the
  text. The state bag starts as a copy of the caller's initial state.
\<close>

definition createContext :: "request \<Rightarrow> (string \<times> string) list \<Rightarrow> env \<Rightarrow> ctx" where
  "createContext req initialState e =
     \<lparr>request = req,
      response = createResponseBuilder,
      state = initialState,
      meta = createRequestMeta req e\<rparr>"

text \<open>A handler's result: \<^verbatim>\<open>{ done: false }\<close> or \<^verbatim>\<open>{ done: true, response }\<close>.\<close>

datatype result = Continue | Stop response

subsection \<open>Handlers\<close>

text \<open>
  A handler is user code. The model gives it as the tree of what it does, in order:
  \<^item> \<open>Do f p\<close> changes the context (response builder, state bag, metadata) by \<open>f\<close> and
    goes on with \<open>p\<close>;
  \<^item> \<open>Cond b p q\<close> branches on the context;
  \<^item> \<open>AwaitNext p\<close> is \<^verbatim>\<open>await next()\<close> followed by \<open>p\<close>; what \<^verbatim>\<open>next()\<close> throws
    leaves the handler;
  \<^item> \<open>TryAwaitNext p h\<close> is \<^verbatim>\<open>try { await next() } catch (e) { ... }\<close>: the handler
    goes on with \<open>p\<close> if the call returns and with \<open>h e\<close> if it throws \<open>e\<close>;
  \<^item> \<open>Throw e\<close> throws; \<open>ReturnContinue\<close> is \<^verbatim>\<open>return { done: false }\<close>;
    \<open>ReturnStop f\<close> is \<^verbatim>\<open>return { done: true, response }\<close> with the response
    computed from the context, as in \<^verbatim>\<open>response: ctx.response.build()\<close>; computing
    it may throw, and then the handler throws.
  Every \<^verbatim>\<open>next()\<close> is awaited, so a handler continues only when the call has returned
  or thrown; a handler that lets \<^verbatim>\<open>next()\<close> run in the background is outside the model.
\<close>

datatype prog =
    ReturnContinue
  | ReturnStop "ctx \<Rightarrow> exn + response"
  | Throw exn
  | Do "ctx \<Rightarrow> ctx" prog
  | Cond "ctx \<Rightarrow> bool" prog prog
  | AwaitNext prog
  | TryAwaitNext prog "exn \<Rightarrow> prog"

text \<open>
  The events a run leaves behind are bookkeeping of the model, not data of the program:
  \<open>Enter i\<close> when the chain calls the handler at position \<open>i\<close>, \<open>Resume i\<close> when an
  awaited \<^verbatim>\<open>next()\<close> returns into it, \<open>Caught i e\<close> when its \<^verbatim>\<open>catch\<close> receives
  \<open>e\<close> from \<^verbatim>\<open>next()\<close>.
\<close>

datatype event = Enter nat | Resume nat | Caught nat exn

record exec_state =
  index :: nat
  ectx :: ctx
  trace :: "event list"

text \<open>
  Running the handler at position \<open>i\<close>: \<open>nxt\<close> is the \<^verbatim>\<open>next\<close> closure it was
  given. An error is \<open>Inl\<close>.
\<close>

primrec exec ::
  "prog \<Rightarrow> nat \<Rightarrow> (exec_state \<Rightarrow> (exn + unit) \<times> exec_state) \<Rightarrow> exec_state
     \<Rightarrow> (exn + result) \<times> exec_state" where
  "exec ReturnContinue i nxt s = (Inr Continue, s)"
| "exec (ReturnStop f) i nxt s =
     (case f (ectx s) of
        Inl e \<Rightarrow> (Inl e, s)
      | Inr r \<Rightarrow> (Inr (Stop r), s))"
| "exec (Throw e) i nxt s = (Inl e, s)"
| "exec (Do f p) i nxt s = exec p i nxt (s\<lparr>ectx := f (ectx s)\<rparr>)"
| "exec (Cond b p q) i nxt s = (if b (ectx s) then exec p i nxt s else exec q i nxt s)"
| "exec (AwaitNext p) i nxt s =
     (case nxt s of
        (Inl e, s') \<Rightarrow> (Inl e, s')
      | (Inr u, s') \<Rightarrow> exec p i nxt (s'\<lparr>trace := trace s' @ [Resume i]\<rparr>))"
| "exec (TryAwaitNext p h) i nxt s =
     (case nxt s of
        (Inl e, s') \<Rightarrow> exec (h e) i nxt (s'\<lparr>trace := trace s' @ [Caught i e]\<rparr>)
      | (Inr u, s') \<Rightarrow> exec p i nxt (s'\<lparr>trace := trace s' @ [Resume i]\<rparr>))"

subsection \<open>Middlewares and the chain\<close>

text \<open>
  An \<^verbatim>\<open>onInit\<close> hook is user code too: it acts on a world \<open>'w\<close> outside the chain and
  completes (\<open>None\<close>) or throws.
\<close>

record 'w middleware =
  name :: string
  handler :: prog
  onInit :: "('w \<Rightarrow> exn option \<times> 'w) option"

record 'w chain =
  middlewares :: "'w middleware list"
  initialized :: bool

definition createChain :: "'w chain" where
  "createChain = \<lparr>middlewares = [], initialized = False\<rparr>"

fun decimal :: "nat \<Rightarrow> string" where
  "decimal n = (if n < 10 then [hex_digit n] else decimal (n div 10) @ [hex_digit (n mod 10)])"

declare decimal.simps [simp del]

datatype 'w use_arg = Object "'w middleware" | Function prog

fun push_all :: "'w use_arg list \<Rightarrow> 'w middleware list \<Rightarrow> 'w middleware list" where
  "push_all [] ms = ms"
| "push_all (Function f # mws) ms =
     push_all mws (ms @ [\<lparr>name = ''anonymous-'' @ decimal (length ms), handler = f, onInit = None\<rparr>])"
| "push_all (Object mw # mws) ms = push_all mws (ms @ [mw])"

definition use :: "'w use_arg list \<Rightarrow> 'w chain \<Rightarrow> 'w chain" where
  "use mws c = c\<lparr>middlewares := push_all mws (middlewares c)\<rparr>"

definition getMiddlewares :: "'w chain \<Rightarrow> 'w middleware list" where
  "getMiddlewares c = middlewares c"


text \<open>
  \<^verbatim>\<open>initializeMiddlewares\<close>: the loop over the list, from position \<open>i\<close>. The second
  component collects the positions whose hook was called.
\<close>

fun initializeFrom ::
  "nat \<Rightarrow> 'w middleware list \<Rightarrow> 'w \<Rightarrow> nat list \<Rightarrow> exn option \<times> 'w \<times> nat list" where
  "initializeFrom i [] w called = (None, w, called)"
| "initializeFrom i (mw # mws) w called =
     (case onInit mw of
        None \<Rightarrow> initializeFrom (Suc i) mws w called
      | Some hook \<Rightarrow>
          (case hook w of
             (Some e, w') \<Rightarrow> (Some e, w', called @ [i])
           | (None, w') \<Rightarrow> initializeFrom (Suc i) mws w' (called @ [i])))"

definition initializeMiddlewares :: "'w middleware list \<Rightarrow> 'w \<Rightarrow> exn option \<times> 'w \<times> nat list" where
  "initializeMiddlewares mws w = initializeFrom 0 mws w []"

text \<open>
  The \<^verbatim>\<open>next\<close> closure of \<^verbatim>\<open>executeChain\<close>; the variable \<^verbatim>\<open>index\<close> it
  shares with its later calls is a field of the state. It calls itself through the
  handler it runs; every such call happens after \<^verbatim>\<open>index++\<close>, so the nesting is never
  deeper than the number of handlers still ahead, and \<open>d\<close> bounds it. \<open>executeChain\<close>
  starts with the length of the list (lemma \<open>next_d_depth\<close> below: any larger bound gives
  the same run). The list holds middlewares only, so the guard \<^verbatim>\<open>if (!middleware)\<close>
  never fires.
\<close>

fun next_d ::
  "'w middleware list \<Rightarrow> nat \<Rightarrow> exec_state \<Rightarrow> (exn + unit) \<times> exec_state" where
  "next_d mws 0 s = (Inr (), s)"
| "next_d mws (Suc d) s =
     (if index s \<ge> length mws then (Inr (), s)
      else
        let i = index s;
            middleware = mws ! i;
            s1 = s\<lparr>index := i + 1, trace := trace s @ [Enter i]\<rparr>
        in case exec (handler middleware) i (next_d mws d) s1 of
             (Inl e, s2) \<Rightarrow> (Inl e, s2)
           | (Inr Continue, s2) \<Rightarrow> (Inr (), s2)
           | (Inr (Stop r), s2) \<Rightarrow> (Inl (ShortCircuitError r), s2))"

definition executeChain :: "'w middleware list \<Rightarrow> ctx \<Rightarrow> (exn + unit) \<times> exec_state" where
  "executeChain mws c = next_d mws (length mws) \<lparr>index = 0, ectx = c, trace = []\<rparr>"

text \<open>
  \<open>try_chain\<close> is the \<^verbatim>\<open>try/catch\<close> of \<^verbatim>\<open>handle\<close>. The \<^verbatim>\<open>try\<close> holds both
  \<^verbatim>\<open>executeChain\<close> and \<^verbatim>\<open>ctx.response.build()\<close>; the \<^verbatim>\<open>catch\<close>, which is
  \<open>catch_short\<close>, returns the response of a \<^verbatim>\<open>ShortCircuitError\<close> and rethrows
  everything else, so also what \<^verbatim>\<open>build()\<close> throws.
  One call of \<^verbatim>\<open>chain.handle\<close> gives the reply (or the error the call rejects with), the
  chain and the world as the call leaves them, the positions whose \<^verbatim>\<open>onInit\<close> was
  called during it, and the events of the run.
\<close>

record 'w run =
  reply :: "exn + response"
  chain_after :: "'w chain"
  world_after :: 'w
  inits :: "nat list"
  events :: "event list"

definition catch_short :: "exn + response \<Rightarrow> exn + response" where
  "catch_short res =
     (case res of
        Inr r \<Rightarrow> Inr r
      | Inl (ShortCircuitError r) \<Rightarrow> Inr r
      | Inl (Error m) \<Rightarrow> Inl (Error m))"

definition try_chain ::
  "'w middleware list \<Rightarrow> env \<Rightarrow> ctx \<Rightarrow> (exn + response) \<times> event list" where
  "try_chain mws e c =
     (case executeChain mws c of
        (Inr u, s) \<Rightarrow> (catch_short (fst (build e (response (ectx s)))), trace s)
      | (Inl err, s) \<Rightarrow> (catch_short (Inl err), trace s))"

definition handle ::
  "'w chain \<Rightarrow> request \<Rightarrow> (string \<times> string) list \<Rightarrow> env \<Rightarrow> 'w \<Rightarrow> 'w run" where
  "handle c req initialState e w =
     (case (if initialized c then (None, w, []) else initializeMiddlewares (middlewares c) w) of
        (Some err, w', called) \<Rightarrow>
          \<lparr>reply = Inl err, chain_after = c, world_after = w', inits = called, events = []\<rparr>
      | (None, w', called) \<Rightarrow>
          \<lparr>reply = fst (try_chain (middlewares c) e (createContext req initialState e)),
           chain_after = c\<lparr>initialized := True\<rparr>,
           world_after = w',
           inits = called,
           events = snd (try_chain (middlewares c) e (createContext req initialState e))\<rparr>)"


section \<open>Adapters (hono/src/adapter.ts, koa/src/adapter.ts, fastify/src/adapter.ts)\<close>

text \<open>
  The three adapters that test the reply for content call \<^verbatim>\<open>chain.handle\<close> and decide
  on its reply. What the host sees of one request is one of: the reply was handed over
  (\<open>Replied\<close>), the host's own \<^verbatim>\<open>next()\<close> was called (\<open>CalledNext\<close>), the adapter
  returned having done neither (\<open>Idle\<close>), or the adapter's call failed (\<open>Raised\<close>). The
  Koa and the Fastify adapter first convert the host's request; the argument here is the
  converted request.
\<close>

record adapter_options =
  passThrough :: "bool option"

datatype native = Replied response | CalledNext | Idle | Raised exn

definition hasContent :: "response \<Rightarrow> bool" where
  "hasContent r =
     (headers_has (headers r) ''Content-Type'' \<or> status r \<noteq> 200 \<or> headers_has (headers r) ''Location'')"

text \<open>\<^verbatim>\<open>s.includes(p)\<close>.\<close>

fun str_includes :: "string \<Rightarrow> string \<Rightarrow> bool" where
  "str_includes [] p = (p = [])"
| "str_includes (x # xs) p = (take (length p) (x # xs) = p \<or> str_includes xs p)"

text \<open>
  Reading a response's body to its end, as \<^verbatim>\<open>text()\<close> and \<^verbatim>\<open>arrayBuffer()\<close> do:
  the text read, or the error the call rejects with, which can only come from a stream.
  \<^verbatim>\<open>json()\<close> reads the body in the same way and then parses the text. The text of a
  response without body is empty and does not parse; nor does a multipart encoding,
  which starts with two hyphens.
\<close>

datatype content = Text string | Form string "(string \<times> string) list"

definition consume :: "env \<Rightarrow> response \<Rightarrow> exn + content" where
  "consume e r =
     (case body r of
        None \<Rightarrow> Inr (Text [])
      | Some (Bytes t) \<Rightarrow> Inr (Text t)
      | Some (Multipart bnd entries) \<Rightarrow> Inr (Form bnd entries)
      | Some (Stream i) \<Rightarrow>
          if used e i then Inl (Error ''TypeError'')
          else (case stream_text e i of Inl err \<Rightarrow> Inl err | Inr t \<Rightarrow> Inr (Text t)))"

definition response_json :: "env \<Rightarrow> response \<Rightarrow> exn option" where
  "response_json e r =
     (case consume e r of
        Inl err \<Rightarrow> Some err
      | Inr (Text t) \<Rightarrow> if t \<noteq> [] \<and> parses_json e t then None else Some (Error ''SyntaxError'')
      | Inr (Form bnd entries) \<Rightarrow> Some (Error ''SyntaxError''))"

definition response_text :: "env \<Rightarrow> response \<Rightarrow> exn option" where
  "response_text e r = (case consume e r of Inl err \<Rightarrow> Some err | Inr t \<Rightarrow> None)"

definition response_arrayBuffer :: "env \<Rightarrow> response \<Rightarrow> exn option" where
  "response_arrayBuffer e r = (case consume e r of Inl err \<Rightarrow> Some err | Inr t \<Rightarrow> None)"

text \<open>
  \<^verbatim>\<open>fetchToKoaResponse\<close> and \<^verbatim>\<open>fetchToFastifyReply\<close>: status and headers are written
  to the host, then the body is decoded by the reply's content type and written. The
  result is the error the call rejects with, if it does; status and headers are written
  by then, the body is not.
\<close>

definition fetchToKoaResponse :: "env \<Rightarrow> response \<Rightarrow> exn option" where
  "fetchToKoaResponse e fetchResponse =
     (let contentType = (case headers_get (headers fetchResponse) ''Content-Type'' of
                           None \<Rightarrow> []
                         | Some v \<Rightarrow> v)
      in if str_includes contentType ''application/json'' then response_json e fetchResponse
         else if str_includes contentType ''text/'' then response_text e fetchResponse
         else response_arrayBuffer e fetchResponse)"

definition fetchToFastifyReply :: "env \<Rightarrow> response \<Rightarrow> exn option" where
  "fetchToFastifyReply e fetchResponse =
     (let contentType = (case headers_get (headers fetchResponse) ''Content-Type'' of
                           None \<Rightarrow> []
                         | Some v \<Rightarrow> v)
      in if str_includes contentType ''application/json'' then response_json e fetchResponse
         else if str_includes contentType ''text/'' then response_text e fetchResponse
         else response_arrayBuffer e fetchResponse)"

definition toHono :: "'w chain \<Rightarrow> adapter_options \<Rightarrow> request \<Rightarrow> env \<Rightarrow> 'w \<Rightarrow> native" where
  "toHono c options req e w =
     (let pass = (case passThrough options of None \<Rightarrow> True | Some b \<Rightarrow> b)
      in case reply (handle c req [] e w) of
           Inl err \<Rightarrow> Raised err
         | Inr r \<Rightarrow> if hasContent r then Replied r else if pass then CalledNext else Idle)"

definition toKoa :: "'w chain \<Rightarrow> adapter_options \<Rightarrow> request \<Rightarrow> env \<Rightarrow> 'w \<Rightarrow> native" where
  "toKoa c options req e w =
     (let pass = (case passThrough options of None \<Rightarrow> False | Some b \<Rightarrow> b)
      in case reply (handle c req [] e w) of
           Inl err \<Rightarrow> Raised err
         | Inr r \<Rightarrow>
             if hasContent r
             then (case fetchToKoaResponse e r of None \<Rightarrow> Replied r | Some err \<Rightarrow> Raised err)
             else if pass then CalledNext else Idle)"

text \<open>
  \<^verbatim>\<open>toFastify\<close> registers a hook, which takes no \<^verbatim>\<open>passThrough\<close> option and has no
  \<^verbatim>\<open>next\<close> to call: when it returns without a reply (\<open>Idle\<close>), Fastify itself goes on
  to the next hook or to the route.
\<close>

definition toFastify :: "'w chain \<Rightarrow> request \<Rightarrow> env \<Rightarrow> 'w \<Rightarrow> native" where
  "toFastify c req e w =
     (case reply (handle c req [] e w) of
        Inl err \<Rightarrow> Raised err
      | Inr r \<Rightarrow>
          if hasContent r
          then (case fetchToFastifyReply e r of None \<Rightarrow> Replied r | Some err \<Rightarrow> Raised err)
          else Idle)"

text \<open>
  When the decoding of \<^verbatim>\<open>fetchToKoaResponse\<close> and \<^verbatim>\<open>fetchToFastifyReply\<close> succeeds,
  said of the reply: a reply whose content type names JSON must have a body that is a
  JSON text, and a body that is a stream must be unused and read to its end.
\<close>

definition json_typed :: "response \<Rightarrow> bool" where
  "json_typed r =
     (case headers_get (headers r) ''Content-Type'' of
        None \<Rightarrow> False
      | Some v \<Rightarrow> str_includes v ''application/json'')"

definition json_text :: "env \<Rightarrow> string \<Rightarrow> bool" where
  "json_text e t = (t \<noteq> [] \<and> parses_json e t)"

definition decodes :: "env \<Rightarrow> response \<Rightarrow> bool" where
  "decodes e r =
     (case body r of
        None \<Rightarrow> \<not> json_typed r
      | Some (Bytes t) \<Rightarrow> \<not> json_typed r \<or> json_text e t
      | Some (Multipart bnd entries) \<Rightarrow> \<not> json_typed r
      | Some (Stream i) \<Rightarrow>
          \<not> used e i \<and>
          (case stream_text e i of
             Inl err \<Rightarrow> False
           | Inr t \<Rightarrow> \<not> json_typed r \<or> json_text e t))"

section \<open>Reading a handler\<close>

text \<open>
  The claims speak of handlers by what they do: one that calls \<^verbatim>\<open>next()\<close> and returns
  \<^verbatim>\<open>{ done: false }\<close>, one that returns without calling \<^verbatim>\<open>next()\<close>, one that
  stops. The predicates below say so of a handler's tree, and the functions give the
  context such a handler leaves behind.
\<close>

text \<open>Returns \<^verbatim>\<open>{ done: false }\<close> on every path, with no \<^verbatim>\<open>next()\<close> and no throw.\<close>

primrec returns_plainly :: "prog \<Rightarrow> bool" where
  "returns_plainly ReturnContinue = True"
| "returns_plainly (ReturnStop f) = False"
| "returns_plainly (Throw e) = False"
| "returns_plainly (Do f p) = returns_plainly p"
| "returns_plainly (Cond b p q) = (returns_plainly p \<and> returns_plainly q)"
| "returns_plainly (AwaitNext p) = False"
| "returns_plainly (TryAwaitNext p h) = False"

text \<open>
  Awaits \<^verbatim>\<open>next()\<close> once on every path, inside a \<^verbatim>\<open>try\<close> or not, and then returns
  \<^verbatim>\<open>{ done: false }\<close>.
\<close>

primrec wraps_next :: "prog \<Rightarrow> bool" where
  "wraps_next ReturnContinue = False"
| "wraps_next (ReturnStop f) = False"
| "wraps_next (Throw e) = False"
| "wraps_next (Do f p) = wraps_next p"
| "wraps_next (Cond b p q) = (wraps_next p \<and> wraps_next q)"
| "wraps_next (AwaitNext p) = returns_plainly p"
| "wraps_next (TryAwaitNext p h) = returns_plainly p"

text \<open>The context after the code of a handler that runs to its return without \<^verbatim>\<open>next()\<close>.\<close>

primrec tail_ctx :: "prog \<Rightarrow> ctx \<Rightarrow> ctx" where
  "tail_ctx ReturnContinue c = c"
| "tail_ctx (ReturnStop f) c = c"
| "tail_ctx (Throw e) c = c"
| "tail_ctx (Do f p) c = tail_ctx p (f c)"
| "tail_ctx (Cond b p q) c = (if b c then tail_ctx p c else tail_ctx q c)"
| "tail_ctx (AwaitNext p) c = c"
| "tail_ctx (TryAwaitNext p h) c = c"

text \<open>
  The context a handler leaves that wraps its code around \<^verbatim>\<open>next()\<close>, when the call
  changes the context by \<open>k\<close>: the code before the call, then \<open>k\<close>, then the code after.
\<close>

primrec around :: "prog \<Rightarrow> (ctx \<Rightarrow> ctx) \<Rightarrow> ctx \<Rightarrow> ctx" where
  "around ReturnContinue k c = c"
| "around (ReturnStop f) k c = c"
| "around (Throw e) k c = c"
| "around (Do f p) k c = around p k (f c)"
| "around (Cond b p q) k c = (if b c then around p k c else around q k c)"
| "around (AwaitNext p) k c = tail_ctx p (k c)"
| "around (TryAwaitNext p h) k c = tail_ctx p (k c)"

fun onion :: "prog list \<Rightarrow> (ctx \<Rightarrow> ctx) \<Rightarrow> ctx \<Rightarrow> ctx" where
  "onion [] inner = inner"
| "onion (p # ps) inner = around p (onion ps inner)"

text \<open>Reaches an \<^verbatim>\<open>await next()\<close> that no \<^verbatim>\<open>try\<close> surrounds, on every path.\<close>

primrec awaits_uncaught :: "prog \<Rightarrow> bool" where
  "awaits_uncaught ReturnContinue = False"
| "awaits_uncaught (ReturnStop f) = False"
| "awaits_uncaught (Throw e) = False"
| "awaits_uncaught (Do f p) = awaits_uncaught p"
| "awaits_uncaught (Cond b p q) = (awaits_uncaught p \<and> awaits_uncaught q)"
| "awaits_uncaught (AwaitNext p) = True"
| "awaits_uncaught (TryAwaitNext p h) = False"

text \<open>The context at the moment a handler calls \<^verbatim>\<open>next()\<close>.\<close>

primrec before_next :: "prog \<Rightarrow> ctx \<Rightarrow> ctx" where
  "before_next ReturnContinue c = c"
| "before_next (ReturnStop f) c = c"
| "before_next (Throw e) c = c"
| "before_next (Do f p) c = before_next p (f c)"
| "before_next (Cond b p q) c = (if b c then before_next p c else before_next q c)"
| "before_next (AwaitNext p) c = c"
| "before_next (TryAwaitNext p h) c = c"

fun before_all :: "prog list \<Rightarrow> ctx \<Rightarrow> ctx" where
  "before_all [] c = c"
| "before_all (p # ps) c = before_all ps (before_next p c)"

text \<open>
  Reaches \<^verbatim>\<open>return { done: true, response }\<close> on every path, with no \<^verbatim>\<open>next()\<close> and
  no \<^verbatim>\<open>throw\<close> on the way. \<open>stop_response\<close> is the response it stops with, where
  computing the response does not throw; \<open>stop_signal\<close> is what leaves the \<^verbatim>\<open>next()\<close>
  call that ran the handler.
\<close>

primrec stops :: "prog \<Rightarrow> bool" where
  "stops ReturnContinue = False"
| "stops (ReturnStop f) = True"
| "stops (Throw e) = False"
| "stops (Do f p) = stops p"
| "stops (Cond b p q) = (stops p \<and> stops q)"
| "stops (AwaitNext p) = False"
| "stops (TryAwaitNext p h) = False"

primrec stop_response :: "prog \<Rightarrow> ctx \<Rightarrow> response option" where
  "stop_response ReturnContinue c = None"
| "stop_response (ReturnStop f) c = (case f c of Inl e \<Rightarrow> None | Inr r \<Rightarrow> Some r)"
| "stop_response (Throw e) c = None"
| "stop_response (Do f p) c = stop_response p (f c)"
| "stop_response (Cond b p q) c = (if b c then stop_response p c else stop_response q c)"
| "stop_response (AwaitNext p) c = None"
| "stop_response (TryAwaitNext p h) c = None"

primrec stop_signal :: "prog \<Rightarrow> ctx \<Rightarrow> exn option" where
  "stop_signal ReturnContinue c = None"
| "stop_signal (ReturnStop f) c = (case f c of Inl e \<Rightarrow> Some e | Inr r \<Rightarrow> Some (ShortCircuitError r))"
| "stop_signal (Throw e) c = None"
| "stop_signal (Do f p) c = stop_signal p (f c)"
| "stop_signal (Cond b p q) c = (if b c then stop_signal p c else stop_signal q c)"
| "stop_signal (AwaitNext p) c = None"
| "stop_signal (TryAwaitNext p h) c = None"

subsection \<open>Hooks\<close>




subsection \<open>Header values\<close>

definition absent_or_empty :: "string option \<Rightarrow> bool" where
  "absent_or_empty v = (v = None \<or> v = Some [])"

section \<open>What the specification calls a valid address\<close>

text \<open>
  The specification says the client address is accepted only if it is syntactically a
  valid IPv4 or IPv6 address. These two definitions follow those words, not the code:
  dotted-decimal notation for IPv4, and the text forms of RFC 4291, section 2.2, for
  IPv6 (eight groups of one to four hexadecimal digits; at most one \<^verbatim>\<open>::\<close> standing
  for one or more groups; optionally a dotted-decimal IPv4 address in place of the last
  two groups). They are compared with \<open>isValidIP\<close> below.
\<close>

definition spec_valid_ipv4 :: "string \<Rightarrow> bool" where
  "spec_valid_ipv4 a =
     (let ps = split_on CHR ''.'' a
      in length ps = 4 \<and>
         list_all (\<lambda>p. 1 \<le> length p \<and> length p \<le> 3 \<and> list_all is_digit p \<and> parseInt10 p \<le> 255) ps)"

definition h16 :: "string \<Rightarrow> bool" where
  "h16 g = (1 \<le> length g \<and> length g \<le> 4 \<and> list_all is_hex g)"

fun find_double_colon :: "string \<Rightarrow> string \<Rightarrow> (string \<times> string) option" where
  "find_double_colon seen (x # y # rest) =
     (if x = CHR '':'' \<and> y = CHR '':'' then Some (rev seen, rest)
      else find_double_colon (x # seen) (y # rest))"
| "find_double_colon seen rest = None"

text \<open>The number of 16-bit pieces a run of groups stands for, if it is well formed.\<close>

definition pieces :: "string \<Rightarrow> nat option" where
  "pieces s =
     (if s = [] then Some 0
      else let gs = split_on CHR '':'' s
           in if list_all h16 gs then Some (length gs) else None)"

definition tail_pieces :: "string \<Rightarrow> nat option" where
  "tail_pieces s =
     (if s = [] then Some 0
      else let gs = split_on CHR '':'' s
           in if list_all h16 gs then Some (length gs)
              else if list_all h16 (butlast gs) \<and> spec_valid_ipv4 (last gs) then Some (length gs + 1)
              else None)"

definition spec_valid_ipv6 :: "string \<Rightarrow> bool" where
  "spec_valid_ipv6 a =
     (case find_double_colon [] a of
        None \<Rightarrow> tail_pieces a = Some 8
      | Some (front, back) \<Rightarrow>
          (case (pieces front, tail_pieces back) of
             (Some m, Some n) \<Rightarrow> m + n \<le> 7
           | _ \<Rightarrow> False))"

section \<open>Sample requests, runtimes, handlers and hooks\<close>

definition sample_request :: "headers \<Rightarrow> request" where
  "sample_request hs = \<lparr>req_method = ''get'', url = ''http://localhost/'', req_headers = hs, req_body = None\<rparr>"

definition ok_json :: string where
  \<open>ok_json = ''{"ok":true}''\<close>

definition unauthorized_json :: string where
  \<open>unauthorized_json = ''{"error":"Unauthorized"}''\<close>

definition internal_error_json :: string where
  \<open>internal_error_json = ''{"error":"Internal Server Error","code":"INTERNAL_ERROR","status":500}''\<close>

text \<open>
  A runtime with no stream in use, in which every stream reads as the empty text, and
  whose \<^verbatim>\<open>JSON.parse\<close> accepts, of the texts used here, the three above.
\<close>

definition sample_env :: env where
  "sample_env =
     \<lparr>now = 0, native_uuid = None, random_bytes = (\<lambda>i. 0), boundary = ''b0'',
      used = (\<lambda>i. False), stream_text = (\<lambda>i. Inr []),
      parses_json = (\<lambda>t. t \<in> set [ok_json, unauthorized_json, internal_error_json])\<rparr>"

text \<open>\<^verbatim>\<open>ctx.response.m(...)\<close> and \<^verbatim>\<open>ctx.response.build()\<close> inside a handler.\<close>

definition on_response :: "(builder \<Rightarrow> builder) \<Rightarrow> ctx \<Rightarrow> ctx" where
  "on_response f c = c\<lparr>response := f (response c)\<rparr>"

definition snapshot :: "ctx \<Rightarrow> exn + response" where
  "snapshot c = fst (build sample_env (response c))"

definition plain :: "prog \<Rightarrow> 'w middleware" where
  "plain p = \<lparr>name = ''sample'', handler = p, onInit = None\<rparr>"

text \<open>
  The handlers of the chain test "should execute middleware in order", which push a mark
  before and after \<^verbatim>\<open>await next()\<close>; the marks go to a response header here.
\<close>

definition marking :: "string \<Rightarrow> string \<Rightarrow> prog" where
  "marking pre post =
     Do (on_response (appendHeader ''x-order'' pre))
       (AwaitNext (Do (on_response (appendHeader ''x-order'' post)) ReturnContinue))"

text \<open>
  The two handlers of the specification's end-to-end scenario: A calls
  \<^verbatim>\<open>continue()\<close> and then appends the header \<^verbatim>\<open>X-Post: 1\<close>; B sets status 201 and
  the JSON body and returns \<^verbatim>\<open>Continue\<close>.
\<close>

definition handler_A :: prog where
  "handler_A = AwaitNext (Do (on_response (appendHeader ''X-Post'' ''1'')) ReturnContinue)"

definition handler_B :: prog where
  "handler_B = Do (on_response (json ok_json \<circ> setStatus 201)) ReturnContinue"

text \<open>
  The first handler of the chain test "should stop chain when middleware returns done:
  true": \<^verbatim>\<open>ctx.response.setStatus(401).json(...)\<close>, then
  \<^verbatim>\<open>return { done: true, response: ctx.response.build() }\<close>.
\<close>

definition unauthorized :: prog where
  "unauthorized = Do (on_response (json unauthorized_json \<circ> setStatus 401)) (ReturnStop snapshot)"

text \<open>
  The repository's \<^verbatim>\<open>errorHandler()\<close> middleware with its default options, for
  what it catches that is not a \<^verbatim>\<open>MiddlewareError\<close>: \<^verbatim>\<open>try { await next(); return
  { done: false } } catch (error) { ... }\<close>, where the catch sets status 500 and a JSON
  body and returns \<^verbatim>\<open>{ done: true, response: ctx.response.build() }\<close>.
\<close>

definition errorHandler :: prog where
  "errorHandler =
     TryAwaitNext ReturnContinue
       (\<lambda>error. Do (on_response (json internal_error_json \<circ> setStatus 500)) (ReturnStop snapshot))"

text \<open>
  A handler that ignores whatever \<^verbatim>\<open>next()\<close> throws, and one that stops with
  \<^verbatim>\<open>new Response('Forbidden', { status: 403 })\<close>, which is the response \<open>forbidden\<close>.
\<close>

definition ignoring :: prog where
  "ignoring = TryAwaitNext ReturnContinue (\<lambda>error. ReturnContinue)"

definition forbid :: prog where
  "forbid = ReturnStop (\<lambda>c. new_Response sample_env (Some (BodyString ''Forbidden'')) 403 [])"

definition forbidden :: response where
  "forbidden =
     \<lparr>status = 403, headers = [(''content-type'', ''text/plain;charset=UTF-8'')],
      body = Some (Bytes ''Forbidden'')\<rparr>"



definition json_then_redirect :: prog where
  "json_then_redirect = Do (on_response (redirect ''/login'' None \<circ> json ok_json)) ReturnContinue"





section \<open>Properties of the response builder\<close>




text \<open>What \<^verbatim>\<open>build()\<close> throws is never a \<^verbatim>\<open>ShortCircuitError\<close>.\<close>

lemma catch_short_build: "catch_short (fst (build e b)) = fst (build e b)"
  by (auto simp: catch_short_def build_def new_Response_def initialize_def extract_body_def
      split: option.splits body_init.splits sum.splits exn.splits)




section \<open>Properties of the request metadata\<close>

lemma split_acc_nonempty: "split_acc c cur s \<noteq> []"
  by (induction s arbitrary: cur) auto

lemma first_candidate_find:
  "first_candidate hs names =
     (case List.find (\<lambda>h. candidate hs h \<noteq> None) names of
        None \<Rightarrow> None
      | Some h \<Rightarrow> candidate hs h)"
  by (induction names) (auto split: option.splits)

lemma candidate_Some:
  "candidate hs h = Some a \<longleftrightarrow>
     (\<exists>v. headers_get hs h = Some v \<and> v \<noteq> [] \<and> a = trim (hd (split_on CHR '','' v)) \<and>
          a \<noteq> [] \<and> isValidIP a)"
  using split_acc_nonempty [of "CHR '',''" "[]"]
  by (auto simp: candidate_def split_on_def Let_def split: option.splits list.splits)

lemma candidate_absent: "headers_get hs h = None \<Longrightarrow> candidate hs h = None"
  by (simp add: candidate_def)

lemma forwarded_first_entry:
  "trim (hd (split_on CHR '','' ''203.0.113.5, 10.0.0.1'')) = ''203.0.113.5''"
  by (simp add: split_on_def trim_def is_space_def)

lemma forwarded_entry_valid: "isValidIP ''203.0.113.5''"
  by (simp add: isValidIP_def ipv4_pattern_def split_on_def is_digit_def parseInt10_def
      digit_value_def)

text \<open>
  Claim C8, as amended. At context creation the client address is derived from the
  headers \<^verbatim>\<open>cf-connecting-ip\<close>, \<^verbatim>\<open>x-real-ip\<close>, \<^verbatim>\<open>x-forwarded-for\<close>,
  \<^verbatim>\<open>x-client-ip\<close>, \<^verbatim>\<open>true-client-ip\<close>, in this order: \<^verbatim>\<open>meta.ip\<close> is what the
  first header that yields an address yields, and absent if none does. A header yields
  an address exactly when it is present with a non-empty value whose first
  comma-separated entry, trimmed, is non-empty and passes \<open>isValidIP\<close>, the code's
  simplified check. With \<^verbatim>\<open>x-forwarded-for: 203.0.113.5, 10.0.0.1\<close> and neither of the
  two headers before it, \<^verbatim>\<open>meta.ip\<close> is \<^verbatim>\<open>203.0.113.5\<close>; with none of the five
  headers it is absent.
\<close>

theorem client_ip_derivation:
  "meta_ip (meta (createContext req st e)) =
     (case List.find (\<lambda>h. candidate (req_headers req) h \<noteq> None) ipHeaders of
        None \<Rightarrow> None
      | Some h \<Rightarrow> candidate (req_headers req) h) \<and>
   (\<forall>h a. candidate (req_headers req) h = Some a \<longleftrightarrow>
      (\<exists>v. headers_get (req_headers req) h = Some v \<and> v \<noteq> [] \<and>
           a = trim (hd (split_on CHR '','' v)) \<and> a \<noteq> [] \<and> isValidIP a)) \<and>
   (headers_get (req_headers req) ''cf-connecting-ip'' = None \<and>
    headers_get (req_headers req) ''x-real-ip'' = None \<and>
    headers_get (req_headers req) ''x-forwarded-for'' = Some ''203.0.113.5, 10.0.0.1''
      \<longrightarrow> meta_ip (meta (createContext req st e)) = Some ''203.0.113.5'') \<and>
   ((\<forall>h \<in> set ipHeaders. headers_get (req_headers req) h = None)
      \<longrightarrow> meta_ip (meta (createContext req st e)) = None)"
proof -
  let ?hs = "req_headers req"
  have ip: "meta_ip (meta (createContext req st e)) = first_candidate ?hs ipHeaders"
    by (simp add: createContext_def createRequestMeta_def extractClientIP_def)
  have a: "first_candidate ?hs ipHeaders =
     (case List.find (\<lambda>h. candidate ?hs h \<noteq> None) ipHeaders of
        None \<Rightarrow> None | Some h \<Rightarrow> candidate ?hs h)"
    by (rule first_candidate_find)
  have c: "first_candidate ?hs ipHeaders = Some ''203.0.113.5''"
    if "headers_get ?hs ''cf-connecting-ip'' = None" "headers_get ?hs ''x-real-ip'' = None"
      "headers_get ?hs ''x-forwarded-for'' = Some ''203.0.113.5, 10.0.0.1''"
  proof -
    have "candidate ?hs ''x-forwarded-for'' = Some ''203.0.113.5''"
      unfolding candidate_Some using that(3) forwarded_first_entry forwarded_entry_valid by simp
    with that(1,2) show ?thesis by (simp add: ipHeaders_def candidate_absent)
  qed
  have d: "first_candidate ?hs ipHeaders = None"
    if "\<forall>h \<in> set ipHeaders. headers_get ?hs h = None"
    using that by (simp add: ipHeaders_def candidate_absent)
  show ?thesis using a c d candidate_Some [of ?hs] unfolding ip by blast
qed

text \<open>
  The theorem at two requests: one whose only header is the forwarded-for chain of the
  claim, and one with no header at all.
\<close>

theorem client_ip_derivation_witness:
  "meta_ip (meta (createContext
      (sample_request [(''x-forwarded-for'', ''203.0.113.5, 10.0.0.1'')]) [] sample_env))
     = Some ''203.0.113.5'' \<and>
   meta_ip (meta (createContext (sample_request []) [] sample_env)) = None"
proof -
  let ?r = "sample_request [(''x-forwarded-for'', ''203.0.113.5, 10.0.0.1'')]"
  have "headers_get (req_headers ?r) ''cf-connecting-ip'' = None \<and>
        headers_get (req_headers ?r) ''x-real-ip'' = None \<and>
        headers_get (req_headers ?r) ''x-forwarded-for'' = Some ''203.0.113.5, 10.0.0.1''"
    by (simp add: sample_request_def headers_get_def lower_def lower_char_def)
  with client_ip_derivation [of ?r "[]" sample_env]
  have one: "meta_ip (meta (createContext ?r [] sample_env)) = Some ''203.0.113.5''"
    by blast
  have "\<forall>h \<in> set ipHeaders. headers_get (req_headers (sample_request [])) h = None"
    by (simp add: sample_request_def headers_get_def)
  with client_ip_derivation [of "sample_request []" "[]" sample_env]
  have two: "meta_ip (meta (createContext (sample_request []) [] sample_env)) = None"
    by blast
  from one two show ?thesis by simp
qed

text \<open>
  The claim as stated fails: \<^verbatim>\<open>1:2:3\<close> is neither a valid IPv4 nor a valid IPv6
  address, and a request that carries it in \<^verbatim>\<open>x-real-ip\<close> gets it as \<^verbatim>\<open>meta.ip\<close>.
\<close>

theorem client_ip_counterexample:
  "meta_ip (meta (createContext (sample_request [(''x-real-ip'', ''1:2:3'')]) [] sample_env))
     = Some ''1:2:3'' \<and>
   \<not> spec_valid_ipv4 ''1:2:3'' \<and> \<not> spec_valid_ipv6 ''1:2:3''"
  by (simp add: createContext_def createRequestMeta_def extractClientIP_def sample_request_def
      ipHeaders_def candidate_def headers_get_def lower_def lower_char_def split_on_def trim_def
      is_space_def isValidIP_def ipv4_pattern_def ipv6_pattern_def is_hex_def is_digit_def
      spec_valid_ipv4_def spec_valid_ipv6_def tail_pieces_def pieces_def h16_def)

lemma hex2_length: "length (hex2 b) = 2"
  by (simp add: hex2_def)

lemma fallback_length: "length (generateUUIDFallback rnd) = 36"
  by (simp add: generateUUIDFallback_def formatUUIDBytes_def Let_def hex2_length
      upt_rec [of 0] upt_rec [of "Suc _"])

text \<open>
  Claim C9, as amended. At context creation the correlation id is taken from the headers
  \<^verbatim>\<open>x-request-id\<close>, \<^verbatim>\<open>x-correlation-id\<close>, \<^verbatim>\<open>request-id\<close>, in this order: the
  first of them that is present with a non-empty value gives \<^verbatim>\<open>meta.id\<close>; a header
  that is absent or present with the empty value is passed over. If none of the three has
  a non-empty value, \<^verbatim>\<open>meta.id\<close> is what \<^verbatim>\<open>generateUUID\<close> returns: 36 characters on
  the fallback path, and non-empty unless the runtime's \<^verbatim>\<open>crypto.randomUUID()\<close>
  returns the empty string. A request with \<^verbatim>\<open>x-request-id: abc-123\<close> has
  \<^verbatim>\<open>meta.id = "abc-123"\<close>.
\<close>

theorem request_id_derivation:
  "(\<forall>v. headers_get (req_headers req) ''x-request-id'' = Some v \<and> v \<noteq> []
      \<longrightarrow> meta_id (meta (createContext req st e)) = v) \<and>
   (\<forall>v. absent_or_empty (headers_get (req_headers req) ''x-request-id'') \<and>
        headers_get (req_headers req) ''x-correlation-id'' = Some v \<and> v \<noteq> []
      \<longrightarrow> meta_id (meta (createContext req st e)) = v) \<and>
   (\<forall>v. absent_or_empty (headers_get (req_headers req) ''x-request-id'') \<and>
        absent_or_empty (headers_get (req_headers req) ''x-correlation-id'') \<and>
        headers_get (req_headers req) ''request-id'' = Some v \<and> v \<noteq> []
      \<longrightarrow> meta_id (meta (createContext req st e)) = v) \<and>
   (absent_or_empty (headers_get (req_headers req) ''x-request-id'') \<and>
    absent_or_empty (headers_get (req_headers req) ''x-correlation-id'') \<and>
    absent_or_empty (headers_get (req_headers req) ''request-id'')
      \<longrightarrow> meta_id (meta (createContext req st e)) = generateUUID e \<and>
          (native_uuid e = None \<longrightarrow> length (meta_id (meta (createContext req st e))) = 36) \<and>
          (native_uuid e \<noteq> Some [] \<longrightarrow> meta_id (meta (createContext req st e)) \<noteq> [])) \<and>
   (headers_get (req_headers req) ''x-request-id'' = Some ''abc-123''
      \<longrightarrow> meta_id (meta (createContext req st e)) = ''abc-123'')"
proof -
  have len: "native_uuid e = None \<Longrightarrow> length (generateUUID e) = 36"
    by (simp add: generateUUID_def fallback_length)
  have ne: "native_uuid e \<noteq> Some [] \<Longrightarrow> generateUUID e \<noteq> []"
    using fallback_length [of "random_bytes e"]
    by (cases "native_uuid e") (auto simp: generateUUID_def)
  show ?thesis using len ne
    by (auto simp: createContext_def createRequestMeta_def extractRequestId_def or_else_def
        absent_or_empty_def Let_def)
qed

text \<open>
  The theorem at a request with \<^verbatim>\<open>x-request-id: abc-123\<close>, and at one with no header,
  whose id is generated.
\<close>

theorem request_id_derivation_witness:
  "meta_id (meta (createContext (sample_request [(''x-request-id'', ''abc-123'')]) [] sample_env))
     = ''abc-123'' \<and>
   length (meta_id (meta (createContext (sample_request []) [] sample_env))) = 36"
proof -
  let ?r = "sample_request [(''x-request-id'', ''abc-123'')]"
  have "headers_get (req_headers ?r) ''x-request-id'' = Some ''abc-123''"
    by (simp add: sample_request_def headers_get_def lower_def lower_char_def)
  with request_id_derivation [of ?r "[]" sample_env]
  have one: "meta_id (meta (createContext ?r [] sample_env)) = ''abc-123''"
    by blast
  have "absent_or_empty (headers_get (req_headers (sample_request [])) ''x-request-id'') \<and>
        absent_or_empty (headers_get (req_headers (sample_request [])) ''x-correlation-id'') \<and>
        absent_or_empty (headers_get (req_headers (sample_request [])) ''request-id'') \<and>
        native_uuid sample_env = None"
    by (simp add: sample_request_def headers_get_def absent_or_empty_def sample_env_def)
  with request_id_derivation [of "sample_request []" "[]" sample_env]
  have two: "length (meta_id (meta (createContext (sample_request []) [] sample_env))) = 36"
    by meson
  from one two show ?thesis by simp
qed

text \<open>
  The claim as stated fails: here \<^verbatim>\<open>x-request-id\<close> is the first header present and
  its value is the empty string, yet \<^verbatim>\<open>meta.id\<close> is the value of the header after it.
\<close>

theorem request_id_counterexample:
  "headers_has [(''x-request-id'', ''''), (''x-correlation-id'', ''c-1'')] ''x-request-id'' \<and>
   headers_get [(''x-request-id'', ''''), (''x-correlation-id'', ''c-1'')] ''x-request-id'' = Some '''' \<and>
   meta_id (meta (createContext
      (sample_request [(''x-request-id'', ''''), (''x-correlation-id'', ''c-1'')]) [] sample_env))
     = ''c-1''"
  by (simp add: createContext_def createRequestMeta_def extractRequestId_def or_else_def
      sample_request_def headers_get_def headers_has_def lower_def lower_char_def)

section \<open>Properties of the chain\<close>

subsection \<open>The depth bound of \<open>next_d\<close> is never reached\<close>

lemma exec_index_mono:
  assumes "\<And>s. index s \<le> index (snd (nxt s))"
  shows "index s \<le> index (snd (exec p i nxt s))"
proof (induction p arbitrary: s)
  case (AwaitNext p)
  obtain r s' where n: "nxt s = (r, s')" by (cases "nxt s")
  have "index s \<le> index s'" using assms [of s] n by simp
  moreover have "index (s'\<lparr>trace := trace s' @ [Resume i]\<rparr>)
      \<le> index (snd (exec p i nxt (s'\<lparr>trace := trace s' @ [Resume i]\<rparr>)))"
    by (rule AwaitNext.IH)
  ultimately show ?case using n by (cases r) auto
next
  case (TryAwaitNext p h)
  obtain r s' where n: "nxt s = (r, s')" by (cases "nxt s")
  have le: "index s \<le> index s'" using assms [of s] n by simp
  show ?case
  proof (cases r)
    case (Inl x)
    have "index (s'\<lparr>trace := trace s' @ [Caught i x]\<rparr>)
        \<le> index (snd (exec (h x) i nxt (s'\<lparr>trace := trace s' @ [Caught i x]\<rparr>)))"
      by (rule TryAwaitNext.IH(2)) simp
    with le n Inl show ?thesis by simp
  next
    case (Inr u)
    have "index (s'\<lparr>trace := trace s' @ [Resume i]\<rparr>)
        \<le> index (snd (exec p i nxt (s'\<lparr>trace := trace s' @ [Resume i]\<rparr>)))"
      by (rule TryAwaitNext.IH(1))
    with le n Inr show ?thesis by simp
  qed
next
  case (Do f p)
  from Do.IH [of "s\<lparr>ectx := f (ectx s)\<rparr>"] show ?case by simp
qed (auto split: sum.splits)

lemma next_d_index_mono: "index s \<le> index (snd (next_d mws d s))"
proof (induction d arbitrary: s)
  case 0
  show ?case by simp
next
  case (Suc d)
  show ?case
  proof (cases "length mws \<le> index s")
    case True
    then show ?thesis by simp
  next
    case False
    let ?s1 = "s\<lparr>index := index s + 1, trace := trace s @ [Enter (index s)]\<rparr>"
    have "index ?s1 \<le> index (snd (exec (handler (mws ! index s)) (index s) (next_d mws d) ?s1))"
      by (rule exec_index_mono) (rule Suc.IH)
    then show ?thesis using False
      by (auto simp: Let_def split: prod.splits sum.splits result.splits)
  qed
qed

lemma exec_cong_above:
  assumes "\<And>s. index s \<le> index (snd (f s))"
    and "\<And>s. k \<le> index s \<Longrightarrow> f s = g s"
    and "k \<le> index s"
  shows "exec p i f s = exec p i g s"
  using assms(3)
proof (induction p arbitrary: s)
  case (AwaitNext p)
  obtain r s' where n: "f s = (r, s')" by (cases "f s")
  have "k \<le> index s'" using assms(1) [of s] n AwaitNext.prems by simp
  then have "exec p i f (s'\<lparr>trace := trace s' @ [Resume i]\<rparr>)
      = exec p i g (s'\<lparr>trace := trace s' @ [Resume i]\<rparr>)"
    by (intro AwaitNext.IH) simp
  then show ?case using n assms(2) [OF AwaitNext.prems] by (cases r) auto
next
  case (TryAwaitNext p h)
  obtain r s' where n: "f s = (r, s')" by (cases "f s")
  have le: "k \<le> index s'" using assms(1) [of s] n TryAwaitNext.prems by simp
  have g: "g s = (r, s')" using n assms(2) [OF TryAwaitNext.prems] by simp
  show ?case
  proof (cases r)
    case (Inl x)
    have "exec (h x) i f (s'\<lparr>trace := trace s' @ [Caught i x]\<rparr>)
        = exec (h x) i g (s'\<lparr>trace := trace s' @ [Caught i x]\<rparr>)"
      using le by (intro TryAwaitNext.IH(2)) auto
    with n g Inl show ?thesis by simp
  next
    case (Inr u)
    have "exec p i f (s'\<lparr>trace := trace s' @ [Resume i]\<rparr>)
        = exec p i g (s'\<lparr>trace := trace s' @ [Resume i]\<rparr>)"
      using le by (intro TryAwaitNext.IH(1)) auto
    with n g Inr show ?thesis by simp
  qed
next
  case (Do f' p)
  from Do.IH [of "s\<lparr>ectx := f' (ectx s)\<rparr>"] Do.prems show ?case by simp
qed (auto split: sum.splits)

text \<open>
  Any depth that covers the handlers still ahead gives the same run: the first equation
  of \<open>next_d\<close> is only ever used when \<^verbatim>\<open>index >= middlewares.length\<close>, where the
  source returns as well.
\<close>

lemma next_d_depth:
  "length mws - index s \<le> d \<Longrightarrow> next_d mws d s = next_d mws (length mws - index s) s"
proof (induction d arbitrary: s rule: less_induct)
  case (less d)
  show ?case
  proof (cases "length mws \<le> index s")
    case True
    then show ?thesis by (cases d) auto
  next
    case False
    then obtain m where m: "length mws - index s = Suc m"
      by (cases "length mws - index s") auto
    with less.prems obtain d' where d: "d = Suc d'" by (cases d) auto
    have md: "m \<le> d'" using m d less.prems by simp
    let ?s1 = "s\<lparr>index := index s + 1, trace := trace s @ [Enter (index s)]\<rparr>"
    have "exec (handler (mws ! index s)) (index s) (next_d mws d') ?s1 =
          exec (handler (mws ! index s)) (index s) (next_d mws m) ?s1"
    proof (rule exec_cong_above [where k = "index s + 1"])
      show "index t \<le> index (snd (next_d mws d' t))" for t by (rule next_d_index_mono)
      show "next_d mws d' t = next_d mws m t" if "index s + 1 \<le> index t" for t
      proof -
        have b: "length mws - index t \<le> m" using that m by arith
        have "next_d mws d' t = next_d mws (length mws - index t) t"
          using b md d by (intro less.IH) auto
        moreover have "next_d mws m t = next_d mws (length mws - index t) t"
          using b md d by (intro less.IH) auto
        ultimately show ?thesis by simp
      qed
      show "index s + 1 \<le> index ?s1" by simp
    qed
    then show ?thesis using False by (simp add: m d Let_def)
  qed
qed

lemma executeChain_depth:
  "length mws \<le> d \<Longrightarrow> next_d mws d \<lparr>index = 0, ectx = c, trace = []\<rparr> = executeChain mws c"
  using next_d_depth [of mws "\<lparr>index = 0, ectx = c, trace = []\<rparr>" d]
  by (simp add: executeChain_def)

subsection \<open>Handlers that wrap \<^verbatim>\<open>next()\<close>\<close>

lemma exec_returns_plainly:
  "returns_plainly p \<Longrightarrow> exec p i nxt s = (Inr Continue, s\<lparr>ectx := tail_ctx p (ectx s)\<rparr>)"
  by (induction p arbitrary: s) auto

lemma exec_wraps_next:
  assumes "wraps_next p"
    and "\<And>c. nxt (s\<lparr>ectx := c\<rparr>) = (Inr (), s\<lparr>index := m, ectx := k c, trace := trace s @ t\<rparr>)"
  shows "exec p i nxt s =
           (Inr Continue,
            s\<lparr>index := m, ectx := around p k (ectx s), trace := trace s @ t @ [Resume i]\<rparr>)"
  using assms
proof (induction p arbitrary: s)
  case (Do f p)
  have "\<And>c. nxt (s\<lparr>ectx := f (ectx s)\<rparr>\<lparr>ectx := c\<rparr>) =
          (Inr (), s\<lparr>ectx := f (ectx s)\<rparr>\<lparr>index := m, ectx := k c,
             trace := trace (s\<lparr>ectx := f (ectx s)\<rparr>) @ t\<rparr>)"
    using Do.prems(2) by simp
  with Do.IH [of "s\<lparr>ectx := f (ectx s)\<rparr>"] Do.prems(1) show ?case by simp
next
  case (AwaitNext p)
  from AwaitNext.prems(2) [of "ectx s"] show ?case
    using AwaitNext.prems(1) by (simp add: exec_returns_plainly)
next
  case (TryAwaitNext p h)
  from TryAwaitNext.prems(2) [of "ectx s"] show ?case
    using TryAwaitNext.prems(1) by (simp add: exec_returns_plainly)
qed auto

text \<open>
  The run of \<^verbatim>\<open>next()\<close> from position \<open>length pre\<close> through handlers \<open>ups\<close> that
  all wrap \<^verbatim>\<open>next()\<close>, down to the end of the list or to a handler that returns without
  calling \<^verbatim>\<open>next()\<close>.
\<close>

lemma next_d_onion:
  assumes "mws = pre @ ups @ rest"
    and "\<forall>u \<in> set ups. wraps_next (handler u)"
    and "(rest = [] \<and> inner = (\<lambda>c. c) \<and> m = 0) \<or>
         (\<exists>h downs. rest = h # downs \<and> returns_plainly (handler h) \<and>
            inner = tail_ctx (handler h) \<and> m = 1)"
    and "index s = length pre"
    and "length ups + m \<le> d"
  shows "next_d mws d s =
           (Inr (), s\<lparr>index := length pre + length ups + m,
                      ectx := onion (map handler ups) inner (ectx s),
                      trace := trace s @ map Enter [length pre..<length pre + length ups + m]
                                 @ map Resume (rev [length pre..<length pre + length ups])\<rparr>)"
  using assms
proof (induction ups arbitrary: pre d s)
  case Nil
  show ?case
  proof (cases "rest = []")
    case True
    with Nil.prems have "inner = (\<lambda>c. c)" "m = 0" "length mws = length pre" by auto
    with Nil.prems(4) show ?thesis by (cases d) auto
  next
    case False
    with Nil.prems(3) obtain h downs where h: "rest = h # downs" "returns_plainly (handler h)"
      "inner = tail_ctx (handler h)" "m = 1" by auto
    from Nil.prems(5) h obtain d' where d: "d = Suc d'" by (cases d) auto
    have nth: "mws ! length pre = h" using Nil.prems(1) h by simp
    have len: "length pre < length mws" using Nil.prems(1) h by simp
    show ?thesis using Nil.prems(4) len
      by (simp add: d nth h exec_returns_plainly Let_def)
  qed
next
  case (Cons u ups)
  define n where "n = length pre"
  define a where "a = length pre + length (u # ups) + m"
  define b where "b = length pre + length (u # ups)"
  from Cons.prems(5) obtain d' where d: "d = Suc d'" by (cases d) auto
  have nth: "mws ! n = u" using Cons.prems(1) by (simp add: n_def)
  have len: "n < length mws" using Cons.prems(1) by (simp add: n_def)
  have idx: "index s = n" using Cons.prems(4) by (simp add: n_def)
  have na: "n < a" and nb: "n < b" by (simp_all add: n_def a_def b_def)
  define s1 where "s1 = s\<lparr>index := n + 1, trace := trace s @ [Enter n]\<rparr>"
  have mws': "mws = (pre @ [u]) @ ups @ rest" using Cons.prems(1) by simp
  have inner_call: "next_d mws d' (s1\<lparr>ectx := c\<rparr>) =
      (Inr (), s1\<lparr>index := a, ectx := onion (map handler ups) inner c,
                 trace := trace s1 @ (map Enter [Suc n..<a] @ map Resume (rev [Suc n..<b]))\<rparr>)" for c
  proof -
    have "next_d mws d' (s1\<lparr>ectx := c\<rparr>) =
           (Inr (), s1\<lparr>ectx := c\<rparr>\<lparr>index := length (pre @ [u]) + length ups + m,
              ectx := onion (map handler ups) inner (ectx (s1\<lparr>ectx := c\<rparr>)),
              trace := trace (s1\<lparr>ectx := c\<rparr>)
                 @ map Enter [length (pre @ [u])..<length (pre @ [u]) + length ups + m]
                 @ map Resume (rev [length (pre @ [u])..<length (pre @ [u]) + length ups])\<rparr>)"
      using Cons.prems(2,3,5) d
      by (intro Cons.IH [OF mws']) (auto simp: s1_def n_def)
    moreover have "length (pre @ [u]) + length ups + m = a" "length (pre @ [u]) + length ups = b"
      "length (pre @ [u]) = Suc n"
      by (simp_all add: a_def b_def n_def)
    ultimately show ?thesis by (simp only:) simp
  qed
  have w: "wraps_next (handler u)" using Cons.prems(2) by simp
  have ex: "exec (handler u) n (next_d mws d') s1 =
     (Inr Continue, s1\<lparr>index := a,
        ectx := around (handler u) (onion (map handler ups) inner) (ectx s1),
        trace := trace s1 @ (map Enter [Suc n..<a] @ map Resume (rev [Suc n..<b])) @ [Resume n]\<rparr>)"
    by (rule exec_wraps_next [where s = s1 and k = "onion (map handler ups) inner", OF w])
       (rule inner_call)
  have E: "map Enter [n..<a] = Enter n # map Enter [Suc n..<a]"
    using na by (simp add: upt_conv_Cons)
  have R: "map Resume (rev [n..<b]) = map Resume (rev [Suc n..<b]) @ [Resume n]"
    using nb by (simp add: upt_conv_Cons)
  have "next_d mws d s =
          (Inr (), s\<lparr>index := a, ectx := onion (map handler (u # ups)) inner (ectx s),
                     trace := trace s @ map Enter [n..<a] @ map Resume (rev [n..<b])\<rparr>)"
    unfolding d next_d.simps Let_def idx nth s1_def [symmetric] ex E R
    using len by (simp add: s1_def)
  then show ?case by (simp only: n_def a_def b_def)
qed

lemma handle_past_init:
  assumes "initialized c \<or> fst (initializeMiddlewares (middlewares c) w) = None"
  shows "reply (handle c req st e w) = fst (try_chain (middlewares c) e (createContext req st e))"
    and "events (handle c req st e w) = snd (try_chain (middlewares c) e (createContext req st e))"
  using assms by (auto simp: handle_def split: prod.splits option.splits)


text \<open>
  Claim C1. For every chain whose handlers all await \<^verbatim>\<open>next()\<close> once and return
  \<^verbatim>\<open>{ done: false }\<close>, a call of \<^verbatim>\<open>handle\<close> that gets past the \<^verbatim>\<open>onInit\<close> hooks
  enters the handlers in registration order, first to last, and the code after each
  \<^verbatim>\<open>next()\<close> resumes in the exact reverse order, last to first; the reply is what
  \<^verbatim>\<open>build()\<close> gives for the builder after the handlers' code has run nested in this
  way.
\<close>

theorem onion_order:
  assumes "\<forall>mw \<in> set (middlewares c). wraps_next (handler mw)"
    and "initialized c \<or> fst (initializeMiddlewares (middlewares c) w) = None"
  shows "events (handle c req st e w) =
           map Enter [0..<length (middlewares c)] @ map Resume (rev [0..<length (middlewares c)]) \<and>
         reply (handle c req st e w) =
           fst (build e (response
             (onion (map handler (middlewares c)) (\<lambda>c. c) (createContext req st e))))"
proof -
  let ?mws = "middlewares c"
  let ?s0 = "\<lparr>index = 0, ectx = createContext req st e, trace = []\<rparr>"
  let ?z = "length ([]::'a middleware list)"
  have "next_d ?mws (length ?mws) ?s0 =
           (Inr (), ?s0\<lparr>index := ?z + length ?mws + 0,
                      ectx := onion (map handler ?mws) (\<lambda>c. c) (ectx ?s0),
                      trace := trace ?s0 @ map Enter [?z..<?z + length ?mws + 0]
                                 @ map Resume (rev [?z..<?z + length ?mws])\<rparr>)"
    using assms(1) by (intro next_d_onion [where rest = "[]"]) auto
  then have "try_chain ?mws e (createContext req st e) =
      (fst (build e (response (onion (map handler ?mws) (\<lambda>c. c) (createContext req st e)))),
       map Enter [0..<length ?mws] @ map Resume (rev [0..<length ?mws]))"
    by (simp add: try_chain_def catch_short_build executeChain_def)
  with handle_past_init [OF assms(2)] show ?thesis by simp
qed

text \<open>
  The theorem at the chain of the test "should execute middleware in order": two
  handlers that leave a mark before and after \<^verbatim>\<open>await next()\<close>. The marks come out as
  1, 2, 3, 4.
\<close>

theorem onion_order_witness:
  "list_all (\<lambda>mw. wraps_next (handler mw))
     (middlewares (use [Function (marking ''1'' ''4''), Function (marking ''2'' ''3'')]
        (createChain :: unit chain))) \<and>
   events (handle (use [Function (marking ''1'' ''4''), Function (marking ''2'' ''3'')] createChain)
      (sample_request []) [] sample_env ()) = [Enter 0, Enter 1, Resume 1, Resume 0] \<and>
   reply (handle (use [Function (marking ''1'' ''4''), Function (marking ''2'' ''3'')] createChain)
      (sample_request []) [] sample_env ()) =
     Inr \<lparr>status = 200,
          headers = [(''x-order'', ''1''), (''x-order'', ''2''), (''x-order'', ''3''), (''x-order'', ''4'')],
          body = None\<rparr>"
proof -
  let ?c = "use [Function (marking ''1'' ''4''), Function (marking ''2'' ''3'')] (createChain :: unit chain)"
  have mws: "middlewares ?c =
      [\<lparr>name = ''anonymous-0'', handler = marking ''1'' ''4'', onInit = None\<rparr>,
       \<lparr>name = ''anonymous-1'', handler = marking ''2'' ''3'', onInit = None\<rparr>]"
    by (simp add: use_def createChain_def decimal.simps hex_digit_def)
  have h1: "\<forall>mw \<in> set (middlewares ?c). wraps_next (handler mw)"
    unfolding mws by (simp add: marking_def)
  have h2: "initialized ?c \<or> fst (initializeMiddlewares (middlewares ?c) ()) = None"
    unfolding mws by (simp add: initializeMiddlewares_def)
  have ctx: "fst (build sample_env (response (onion (map handler (middlewares ?c)) (\<lambda>c. c)
                (createContext (sample_request []) [] sample_env)))) =
      Inr \<lparr>status = 200,
       headers = [(''x-order'', ''1''), (''x-order'', ''2''), (''x-order'', ''3''), (''x-order'', ''4'')],
       body = None\<rparr>"
    unfolding mws
    by (simp add: marking_def on_response_def appendHeader_def headers_append_def lower_def
        lower_char_def createContext_def createResponseBuilder_def build_def new_Response_def
        initialize_def)
  have ev: "map Enter [0..<length (middlewares ?c)] @ map Resume (rev [0..<length (middlewares ?c)])
      = [Enter 0, Enter 1, Resume 1, Resume 0]"
    unfolding mws by (simp add: upt_rec [of 0] upt_rec [of "Suc _"])
  from onion_order [OF h1 h2, of "sample_request []" "[]" sample_env] h1 show ?thesis
    by (simp only: ctx ev list_all_iff)
qed




subsection \<open>Short circuit\<close>

text \<open>
  Claim C2. The code does not do what the claim says: when a handler before the stopping
  one catches what \<^verbatim>\<open>next()\<close> throws, the \<^verbatim>\<open>ShortCircuitError\<close> that carries the
  response never reaches \<^verbatim>\<open>handle\<close>. Here the first handler ignores the error and
  the second stops with a 403 response of its own; \<^verbatim>\<open>handle\<close> replies with the
  snapshot of the untouched builder.
\<close>

theorem stop_not_returned:
  "reply (handle (use [Function ignoring, Function forbid] createChain)
            (sample_request []) [] sample_env ())
     = Inr \<lparr>status = 200, headers = [], body = None\<rparr> \<and>
   events (handle (use [Function ignoring, Function forbid] createChain)
            (sample_request []) [] sample_env ())
     = [Enter 0, Enter 1, Caught 0 (ShortCircuitError forbidden)]"
  by (simp add: use_def createChain_def ignoring_def forbid_def forbidden_def handle_def
      initializeMiddlewares_def try_chain_def catch_short_def executeChain_def createContext_def
      createResponseBuilder_def build_def new_Response_def initialize_def extract_body_def
      with_type_def null_body_status_def headers_has_def headers_append_def lower_def
      lower_char_def)

text \<open>
  Claim C3. The code does not do what the claim says: the short-circuit signal is an
  ordinary thrown \<^verbatim>\<open>Error\<close>, and a \<^verbatim>\<open>catch\<close> around \<^verbatim>\<open>next()\<close> receives it.
  Here the repository's own \<^verbatim>\<open>errorHandler()\<close> comes first and a handler that stops
  with a 401 response second: the catch of the first observes the
  \<^verbatim>\<open>ShortCircuitError\<close>, and \<^verbatim>\<open>handle\<close> replies 500.
\<close>

theorem short_circuit_caught:
  "reply (handle (use [Object (plain errorHandler), Function unauthorized] createChain)
            (sample_request []) [] sample_env ())
     = Inr \<lparr>status = 500, headers = [(''content-type'', ''application/json; charset=utf-8'')],
            body = Some (Bytes internal_error_json)\<rparr> \<and>
   events (handle (use [Object (plain errorHandler), Function unauthorized] createChain)
            (sample_request []) [] sample_env ())
     = [Enter 0, Enter 1,
        Caught 0 (ShortCircuitError
          \<lparr>status = 401, headers = [(''content-type'', ''application/json; charset=utf-8'')],
           body = Some (Bytes unauthorized_json)\<rparr>)]"
  by (simp add: use_def createChain_def plain_def errorHandler_def unauthorized_def handle_def
      initializeMiddlewares_def try_chain_def catch_short_def executeChain_def createContext_def
      createResponseBuilder_def build_def new_Response_def initialize_def extract_body_def
      with_type_def null_body_status_def on_response_def snapshot_def json_def setStatus_def
      headers_set_def headers_has_def lower_def lower_char_def)

lemma stop_response_signal:
  "stop_response p c = Some r \<Longrightarrow> stop_signal p c = Some (ShortCircuitError r)"
  by (induction p arbitrary: c) (auto split: sum.splits if_splits)

text \<open>
  A handler that stops leaves \<^verbatim>\<open>next()\<close> by a throw: of the \<^verbatim>\<open>ShortCircuitError\<close>
  that \<^verbatim>\<open>next()\<close> makes of its result, or of what computing the response threw.
\<close>

lemma exec_stops:
  "stops p \<Longrightarrow>
     \<exists>x. stop_signal p (ectx s) = Some x \<and>
       (case exec p i nxt s of
          (Inl e, s2) \<Rightarrow> (Inl e, s2)
        | (Inr Continue, s2) \<Rightarrow> (Inr (), s2)
        | (Inr (Stop r), s2) \<Rightarrow> (Inl (ShortCircuitError r), s2))
       = (Inl x, s\<lparr>ectx := tail_ctx p (ectx s)\<rparr>)"
proof (induction p arbitrary: s)
  case (Do f p)
  from Do.IH [of "s\<lparr>ectx := f (ectx s)\<rparr>"] Do.prems show ?case by simp
qed (auto split: sum.splits)

lemma exec_awaits_uncaught:
  assumes "awaits_uncaught p"
    and "\<And>c. nxt (s\<lparr>ectx := c\<rparr>) = (Inl (X c), s\<lparr>index := m, ectx := k c, trace := trace s @ t\<rparr>)"
  shows "exec p i nxt s =
           (Inl (X (before_next p (ectx s))),
            s\<lparr>index := m, ectx := k (before_next p (ectx s)), trace := trace s @ t\<rparr>)"
  using assms
proof (induction p arbitrary: s)
  case (Do f p)
  have "\<And>c. nxt (s\<lparr>ectx := f (ectx s)\<rparr>\<lparr>ectx := c\<rparr>) =
          (Inl (X c), s\<lparr>ectx := f (ectx s)\<rparr>\<lparr>index := m, ectx := k c,
             trace := trace (s\<lparr>ectx := f (ectx s)\<rparr>) @ t\<rparr>)"
    using Do.prems(2) by simp
  with Do.IH [of "s\<lparr>ectx := f (ectx s)\<rparr>"] Do.prems(1) show ?case by simp
next
  case (AwaitNext p)
  from AwaitNext.prems(2) [of "ectx s"] show ?case by simp
qed auto

lemma next_d_stop:
  assumes "mws = pre @ ups @ h # downs"
    and "\<forall>u \<in> set ups. awaits_uncaught (handler u)"
    and "stops (handler h)"
    and "index s = length pre"
    and "length ups + 1 \<le> d"
  shows "next_d mws d s =
           (Inl (the (stop_signal (handler h) (before_all (map handler ups) (ectx s)))),
            s\<lparr>index := length pre + length ups + 1,
              ectx := tail_ctx (handler h) (before_all (map handler ups) (ectx s)),
              trace := trace s @ map Enter [length pre..<length pre + length ups + 1]\<rparr>)"
  using assms
proof (induction ups arbitrary: pre d s)
  case Nil
  from Nil.prems(5) obtain d' where d: "d = Suc d'" by (cases d) auto
  have nth: "mws ! length pre = h" using Nil.prems(1) by simp
  have len: "length pre < length mws" using Nil.prems(1) by simp
  let ?s1 = "s\<lparr>index := length pre + 1, trace := trace s @ [Enter (length pre)]\<rparr>"
  from exec_stops [OF Nil.prems(3), of ?s1 "length pre" "next_d mws d'"]
  obtain x where x: "stop_signal (handler h) (ectx s) = Some x"
    "(case exec (handler h) (length pre) (next_d mws d') ?s1 of
          (Inl e, s2) \<Rightarrow> (Inl e, s2)
        | (Inr Continue, s2) \<Rightarrow> (Inr (), s2)
        | (Inr (Stop r), s2) \<Rightarrow> (Inl (ShortCircuitError r), s2))
       = (Inl x, ?s1\<lparr>ectx := tail_ctx (handler h) (ectx s)\<rparr>)"
    by auto
  have "next_d mws d s = (Inl x, ?s1\<lparr>ectx := tail_ctx (handler h) (ectx s)\<rparr>)"
    unfolding d next_d.simps Let_def using Nil.prems(4) len x(2) by (simp add: nth)
  then show ?case using x(1) by simp
next
  case (Cons u ups)
  define n where "n = length pre"
  define a where "a = length pre + length (u # ups) + 1"
  from Cons.prems(5) obtain d' where d: "d = Suc d'" by (cases d) auto
  have nth: "mws ! n = u" using Cons.prems(1) by (simp add: n_def)
  have len: "n < length mws" using Cons.prems(1) by (simp add: n_def)
  have idx: "index s = n" using Cons.prems(4) by (simp add: n_def)
  have na: "n < a" by (simp add: n_def a_def)
  define s1 where "s1 = s\<lparr>index := n + 1, trace := trace s @ [Enter n]\<rparr>"
  define X where
    "X = (\<lambda>c. the (stop_signal (handler h) (before_all (map handler ups) c)))"
  define k where "k = (\<lambda>c. tail_ctx (handler h) (before_all (map handler ups) c))"
  have mws': "mws = (pre @ [u]) @ ups @ h # downs" using Cons.prems(1) by simp
  have inner_call: "next_d mws d' (s1\<lparr>ectx := c\<rparr>) =
      (Inl (X c), s1\<lparr>index := a, ectx := k c, trace := trace s1 @ map Enter [Suc n..<a]\<rparr>)" for c
  proof -
    have "next_d mws d' (s1\<lparr>ectx := c\<rparr>) =
           (Inl (the (stop_signal (handler h) (before_all (map handler ups) (ectx (s1\<lparr>ectx := c\<rparr>))))),
            s1\<lparr>ectx := c\<rparr>\<lparr>index := length (pre @ [u]) + length ups + 1,
              ectx := tail_ctx (handler h) (before_all (map handler ups) (ectx (s1\<lparr>ectx := c\<rparr>))),
              trace := trace (s1\<lparr>ectx := c\<rparr>)
                 @ map Enter [length (pre @ [u])..<length (pre @ [u]) + length ups + 1]\<rparr>)"
      using Cons.prems(2,3,5) d
      by (intro Cons.IH [OF mws']) (auto simp: s1_def n_def)
    moreover have "length (pre @ [u]) + length ups + 1 = a" "length (pre @ [u]) = Suc n"
      by (simp_all add: a_def n_def)
    ultimately show ?thesis by (simp only:) (simp add: X_def k_def)
  qed
  have w: "awaits_uncaught (handler u)" using Cons.prems(2) by simp
  have ex: "exec (handler u) n (next_d mws d') s1 =
     (Inl (X (before_next (handler u) (ectx s1))),
      s1\<lparr>index := a, ectx := k (before_next (handler u) (ectx s1)),
         trace := trace s1 @ map Enter [Suc n..<a]\<rparr>)"
    by (rule exec_awaits_uncaught [where s = s1, OF w]) (rule inner_call)
  have E: "map Enter [n..<a] = Enter n # map Enter [Suc n..<a]"
    using na by (simp add: upt_conv_Cons)
  have "next_d mws d s =
          (Inl (X (before_next (handler u) (ectx s))),
           s\<lparr>index := a, ectx := k (before_next (handler u) (ectx s)),
             trace := trace s @ map Enter [n..<a]\<rparr>)"
    unfolding d next_d.simps Let_def idx nth s1_def [symmetric] ex E
    using len by (simp add: s1_def)
  then show ?case by (simp only: n_def a_def X_def k_def before_all.simps list.map)
qed

text \<open>
  What does hold of a stop. If no handler before the stopping one has a \<^verbatim>\<open>try\<close> around
  its \<^verbatim>\<open>next()\<close>, a call of \<^verbatim>\<open>handle\<close> that gets past the \<^verbatim>\<open>onInit\<close> hooks
  replies with exactly the response the handler stopped with, where the handler had one
  to stop with; the handlers after it are never entered, and no handler before it
  resumes.
\<close>

theorem stop_returned_uncaught:
  assumes "middlewares c = ups @ h # downs"
    and "\<forall>u \<in> set ups. awaits_uncaught (handler u)"
    and "stops (handler h)"
    and "initialized c \<or> fst (initializeMiddlewares (middlewares c) w) = None"
    and "stop_response (handler h) (before_all (map handler ups) (createContext req st e)) = Some r"
  shows "reply (handle c req st e w) = Inr r \<and>
         events (handle c req st e w) = map Enter [0..<Suc (length ups)]"
proof -
  let ?mws = "middlewares c"
  let ?s0 = "\<lparr>index = 0, ectx = createContext req st e, trace = []\<rparr>"
  let ?z = "length ([]::'a middleware list)"
  have "next_d ?mws (length ?mws) ?s0 =
           (Inl (the (stop_signal (handler h) (before_all (map handler ups) (ectx ?s0)))),
            ?s0\<lparr>index := ?z + length ups + 1,
              ectx := tail_ctx (handler h) (before_all (map handler ups) (ectx ?s0)),
              trace := trace ?s0 @ map Enter [?z..<?z + length ups + 1]\<rparr>)"
    using assms(1,2,3) by (intro next_d_stop) auto
  then have "try_chain ?mws e (createContext req st e) = (Inr r, map Enter [0..<Suc (length ups)])"
    using stop_response_signal [OF assms(5)]
    by (simp add: try_chain_def catch_short_def executeChain_def del: upt_Suc)
  with handle_past_init [OF assms(4)] show ?thesis by simp
qed

theorem stop_returned_uncaught_witness:
  "reply (handle \<lparr>middlewares = [plain handler_A, plain unauthorized, plain handler_B],
                 initialized = False\<rparr> (sample_request []) [] sample_env ())
     = Inr \<lparr>status = 401, headers = [(''content-type'', ''application/json; charset=utf-8'')],
            body = Some (Bytes unauthorized_json)\<rparr> \<and>
   events (handle \<lparr>middlewares = [plain handler_A, plain unauthorized, plain handler_B],
                  initialized = False\<rparr> (sample_request []) [] sample_env ())
     = [Enter 0, Enter 1]"
proof -
  let ?ups = "[plain handler_A] :: unit middleware list"
  let ?h = "plain unauthorized :: unit middleware"
  let ?downs = "[plain handler_B] :: unit middleware list"
  let ?c = "\<lparr>middlewares = [plain handler_A, plain unauthorized, plain handler_B],
            initialized = False\<rparr> :: unit chain"
  let ?r = "\<lparr>status = 401, headers = [(''content-type'', ''application/json; charset=utf-8'')],
            body = Some (Bytes unauthorized_json)\<rparr>"
  have h1: "middlewares ?c = ?ups @ ?h # ?downs" by simp
  have h2: "\<forall>u \<in> set ?ups. awaits_uncaught (handler u)" by (simp add: plain_def handler_A_def)
  have h3: "stops (handler ?h)" by (simp add: plain_def unauthorized_def)
  have h4: "initialized ?c \<or> fst (initializeMiddlewares (middlewares ?c) ()) = None"
    by (simp add: plain_def initializeMiddlewares_def)
  have h5: "stop_response (handler ?h)
      (before_all (map handler ?ups) (createContext (sample_request []) [] sample_env)) = Some ?r"
    by (simp add: plain_def handler_A_def unauthorized_def on_response_def snapshot_def json_def
        setStatus_def headers_set_def headers_has_def lower_def lower_char_def createContext_def
        createResponseBuilder_def build_def new_Response_def initialize_def extract_body_def
        with_type_def null_body_status_def)
  have ev: "map Enter [0..<Suc (length ?ups)] = [Enter 0, Enter 1]"
    by (simp add: upt_rec [of 0] upt_rec [of "Suc _"])
  from stop_returned_uncaught [OF h1 h2 h3 h4 h5]
  show ?thesis by (simp only: ev)
qed

subsection \<open>Initialisation hooks\<close>














section \<open>Properties of the adapters\<close>

lemma content_type_json_typed:
  "str_includes (case headers_get (headers r) ''Content-Type'' of None \<Rightarrow> [] | Some v \<Rightarrow> v)
     ''application/json'' = json_typed r"
  by (simp add: json_typed_def split: option.splits)

lemma fetchToKoaResponse_decodes: "(fetchToKoaResponse e r = None) = decodes e r"
  unfolding fetchToKoaResponse_def Let_def content_type_json_typed
  by (auto simp: decodes_def response_json_def response_text_def response_arrayBuffer_def
      consume_def json_text_def split: option.splits body.splits sum.splits content.splits)

lemma fetchToFastifyReply_decodes: "(fetchToFastifyReply e r = None) = decodes e r"
  unfolding fetchToFastifyReply_def Let_def content_type_json_typed
  by (auto simp: decodes_def response_json_def response_text_def response_arrayBuffer_def
      consume_def json_text_def split: option.splits body.splits sum.splits content.splits)

text \<open>
  Claim C4, as amended. For the Hono, the Koa and the Fastify adapter, when \<^verbatim>\<open>handle\<close>
  returns a reply, the reply counts as content if and only if its status is not 200, or
  it has a \<^verbatim>\<open>Content-Type\<close> header, or it has a \<^verbatim>\<open>Location\<close> header. The Hono
  adapter hands over every reply that counts as content. The Koa and the Fastify adapter
  hand it over if its body can be decoded by its content type, and fail otherwise: so
  for a reply whose content type names JSON and which has no body. For a reply that does
  not count as content no reply is written: the Hono adapter calls the host's
  \<^verbatim>\<open>next()\<close> unless \<^verbatim>\<open>passThrough\<close> is off, the Koa adapter only if
  \<^verbatim>\<open>passThrough\<close> is on, so that by default it does nothing, and the Fastify hook
  returns, on which Fastify goes on by itself.
\<close>

theorem pass_through_heuristic:
  assumes "reply (handle c req [] e w) = Inr r"
  shows "hasContent r =
           (status r \<noteq> 200 \<or> headers_has (headers r) ''Content-Type'' \<or>
            headers_has (headers r) ''Location'') \<and>
         (toHono c options req e w = Replied r) = hasContent r \<and>
         (toKoa c options req e w = Replied r) = (hasContent r \<and> decodes e r) \<and>
         (toFastify c req e w = Replied r) = (hasContent r \<and> decodes e r) \<and>
         (hasContent r \<and> \<not> decodes e r \<longrightarrow>
            (\<exists>err. toKoa c options req e w = Raised err) \<and>
            (\<exists>err. toFastify c req e w = Raised err)) \<and>
         (hasContent r \<and> json_typed r \<and> body r = None \<longrightarrow>
            toKoa c options req e w = Raised (Error ''SyntaxError'') \<and>
            toFastify c req e w = Raised (Error ''SyntaxError'')) \<and>
         (\<not> hasContent r \<longrightarrow>
            toHono c options req e w = (if passThrough options = Some False then Idle else CalledNext) \<and>
            toKoa c options req e w = (if passThrough options = Some True then CalledNext else Idle) \<and>
            toFastify c req e w = Idle)"
proof -
  have test: "hasContent r =
      (status r \<noteq> 200 \<or> headers_has (headers r) ''Content-Type'' \<or>
       headers_has (headers r) ''Location'')"
    by (auto simp: hasContent_def)
  have hono: "(toHono c options req e w = Replied r) = hasContent r"
    using assms by (auto simp: toHono_def split: option.splits)
  have koa: "(toKoa c options req e w = Replied r) = (hasContent r \<and> decodes e r)"
    using assms fetchToKoaResponse_decodes [of e r]
    by (auto simp: toKoa_def split: option.splits)
  have fastify: "(toFastify c req e w = Replied r) = (hasContent r \<and> decodes e r)"
    using assms fetchToFastifyReply_decodes [of e r]
    by (auto simp: toFastify_def split: option.splits)
  have fails: "(\<exists>err. toKoa c options req e w = Raised err) \<and>
      (\<exists>err. toFastify c req e w = Raised err)"
    if "hasContent r" "\<not> decodes e r"
    using that assms fetchToKoaResponse_decodes [of e r] fetchToFastifyReply_decodes [of e r]
    by (auto simp: toKoa_def toFastify_def split: option.splits)
  have empty: "toKoa c options req e w = Raised (Error ''SyntaxError'') \<and>
      toFastify c req e w = Raised (Error ''SyntaxError'')"
    if "hasContent r" "json_typed r" "body r = None"
  proof -
    have "fetchToKoaResponse e r = Some (Error ''SyntaxError'')"
      "fetchToFastifyReply e r = Some (Error ''SyntaxError'')"
      unfolding fetchToKoaResponse_def fetchToFastifyReply_def Let_def content_type_json_typed
      using that by (simp_all add: response_json_def consume_def)
    with that assms show ?thesis by (simp add: toKoa_def toFastify_def)
  qed
  have none: "toHono c options req e w = (if passThrough options = Some False then Idle else CalledNext) \<and>
      toKoa c options req e w = (if passThrough options = Some True then CalledNext else Idle) \<and>
      toFastify c req e w = Idle"
    if "\<not> hasContent r"
    using that assms by (auto simp: toHono_def toKoa_def toFastify_def split: option.splits)
  from test hono koa fastify fails empty none show ?thesis by blast
qed

text \<open>
  The theorem at the two chains of the specification's example, with default options: a
  sole handler that sets a JSON body (the reply is written, status 200 with a JSON
  content type), and a sole handler that returns without touching the builder (Hono
  calls the host's \<^verbatim>\<open>next()\<close>, the Fastify hook returns).
\<close>

theorem pass_through_heuristic_witness:
  "toHono \<lparr>middlewares = [plain (Do (on_response (json ok_json)) ReturnContinue)], initialized = False\<rparr>
      \<lparr>passThrough = None\<rparr> (sample_request []) sample_env ()
     = Replied \<lparr>status = 200, headers = [(''content-type'', ''application/json; charset=utf-8'')],
                body = Some (Bytes ok_json)\<rparr> \<and>
   toKoa \<lparr>middlewares = [plain (Do (on_response (json ok_json)) ReturnContinue)], initialized = False\<rparr>
      \<lparr>passThrough = None\<rparr> (sample_request []) sample_env ()
     = Replied \<lparr>status = 200, headers = [(''content-type'', ''application/json; charset=utf-8'')],
                body = Some (Bytes ok_json)\<rparr> \<and>
   toFastify \<lparr>middlewares = [plain (Do (on_response (json ok_json)) ReturnContinue)], initialized = False\<rparr>
      (sample_request []) sample_env ()
     = Replied \<lparr>status = 200, headers = [(''content-type'', ''application/json; charset=utf-8'')],
                body = Some (Bytes ok_json)\<rparr> \<and>
   toHono \<lparr>middlewares = [plain ReturnContinue], initialized = False\<rparr>
      \<lparr>passThrough = None\<rparr> (sample_request []) sample_env () = CalledNext \<and>
   toKoa \<lparr>middlewares = [plain ReturnContinue], initialized = False\<rparr>
      \<lparr>passThrough = Some True\<rparr> (sample_request []) sample_env () = CalledNext \<and>
   toFastify \<lparr>middlewares = [plain ReturnContinue], initialized = False\<rparr>
      (sample_request []) sample_env () = Idle"
proof -
  let ?j = "\<lparr>middlewares = [plain (Do (on_response (json ok_json)) ReturnContinue)],
            initialized = False\<rparr> :: unit chain"
  let ?n = "\<lparr>middlewares = [plain ReturnContinue], initialized = False\<rparr> :: unit chain"
  let ?rj = "\<lparr>status = 200, headers = [(''content-type'', ''application/json; charset=utf-8'')],
             body = Some (Bytes ok_json)\<rparr>"
  let ?rn = "\<lparr>status = 200, headers = [], body = None\<rparr>"
  have j: "reply (handle ?j (sample_request []) [] sample_env ()) = Inr ?rj"
    by (simp add: handle_def initializeMiddlewares_def plain_def try_chain_def catch_short_def executeChain_def
        createContext_def createResponseBuilder_def build_def new_Response_def initialize_def
        extract_body_def with_type_def null_body_status_def on_response_def json_def
        headers_set_def headers_has_def lower_def lower_char_def)
  have n: "reply (handle ?n (sample_request []) [] sample_env ()) = Inr ?rn"
    by (simp add: handle_def initializeMiddlewares_def plain_def try_chain_def catch_short_def executeChain_def
        createContext_def createResponseBuilder_def build_def new_Response_def initialize_def)
  have hj: "hasContent ?rj"
    by (simp add: hasContent_def headers_has_def lower_def lower_char_def)
  have dj: "decodes sample_env ?rj"
    by (simp add: decodes_def json_text_def sample_env_def ok_json_def)
  have hn: "\<not> hasContent ?rn"
    by (simp add: hasContent_def headers_has_def)
  from pass_through_heuristic [OF j, of "\<lparr>passThrough = None\<rparr>"] hj dj
  have a: "toHono ?j \<lparr>passThrough = None\<rparr> (sample_request []) sample_env () = Replied ?rj"
    and b: "toKoa ?j \<lparr>passThrough = None\<rparr> (sample_request []) sample_env () = Replied ?rj"
    and f: "toFastify ?j (sample_request []) sample_env () = Replied ?rj"
    by blast+
  from pass_through_heuristic [OF n, of "\<lparr>passThrough = None\<rparr>"] hn
  have c: "toHono ?n \<lparr>passThrough = None\<rparr> (sample_request []) sample_env () = CalledNext"
    and g: "toFastify ?n (sample_request []) sample_env () = Idle"
    by simp_all
  from pass_through_heuristic [OF n, of "\<lparr>passThrough = Some True\<rparr>"] hn
  have d: "toKoa ?n \<lparr>passThrough = Some True\<rparr> (sample_request []) sample_env () = CalledNext"
    by simp
  from a b f c d g show ?thesis by simp
qed

text \<open>
  The claim as stated fails for the Koa adapter: with default options and a reply of
  status 200 without \<^verbatim>\<open>Content-Type\<close> or \<^verbatim>\<open>Location\<close>, it neither writes a reply
  nor calls the host's \<^verbatim>\<open>next()\<close>. It also fails for a reply that counts as content
  and cannot be decoded: a handler that sets a JSON body and then redirects leaves status
  302, a JSON content type and no body; the Hono adapter hands this reply over, the Koa
  and the Fastify adapter fail on it.
\<close>

theorem pass_through_counterexample:
  "reply (handle \<lparr>middlewares = [plain ReturnContinue], initialized = False\<rparr>
      (sample_request []) [] sample_env ()) = Inr \<lparr>status = 200, headers = [], body = None\<rparr> \<and>
   toKoa \<lparr>middlewares = [plain ReturnContinue], initialized = False\<rparr>
      \<lparr>passThrough = None\<rparr> (sample_request []) sample_env () = Idle \<and>
   toKoa \<lparr>middlewares = [plain ReturnContinue], initialized = False\<rparr>
      \<lparr>passThrough = None\<rparr> (sample_request []) sample_env () \<noteq> CalledNext \<and>
   reply (handle \<lparr>middlewares = [plain json_then_redirect], initialized = False\<rparr>
      (sample_request []) [] sample_env ())
     = Inr \<lparr>status = 302,
            headers = [(''content-type'', ''application/json; charset=utf-8''), (''location'', ''/login'')],
            body = None\<rparr> \<and>
   toKoa \<lparr>middlewares = [plain json_then_redirect], initialized = False\<rparr>
      \<lparr>passThrough = None\<rparr> (sample_request []) sample_env () = Raised (Error ''SyntaxError'') \<and>
   toFastify \<lparr>middlewares = [plain json_then_redirect], initialized = False\<rparr>
      (sample_request []) sample_env () = Raised (Error ''SyntaxError'')"
  by (simp add: toKoa_def toFastify_def hasContent_def headers_has_def headers_get_def
      headers_set_def lower_def lower_char_def handle_def initializeMiddlewares_def plain_def
      json_then_redirect_def on_response_def json_def redirect_def try_chain_def catch_short_def executeChain_def
      createContext_def createResponseBuilder_def build_def new_Response_def initialize_def
      fetchToKoaResponse_def fetchToFastifyReply_def response_json_def consume_def)


end
